theory Spec2Isabelle
  imports Complex_Main "HOL-Library.Multiset"
begin

section \<open>JavaScript strings\<close>

text \<open>
  A JavaScript string is a sequence of UTF-16 code units and \<open>length\<close> counts code
  units, so a string is a list of code units (natural numbers). The characters the
  extension tests for, U+4E00..U+9FFF, and the brackets it inserts lie in the basic
  plane: each is one code unit.
\<close>

type_synonym jschar = nat
type_synonym jsstring = "jschar list"

definition asc :: "string \<Rightarrow> jsstring" where
  "asc s = map of_char s"

text \<open>
  \<open>String.prototype.trim\<close> removes white space and line terminators from both ends:
  TAB, LF, VT, FF, CR, SP, NBSP, U+1680, U+2000..U+200A, U+2028, U+2029, U+202F,
  U+205F, U+3000 and U+FEFF.
\<close>

definition js_space :: "jschar \<Rightarrow> bool" where
  "js_space c \<longleftrightarrow>
     c \<in> {9, 10, 11, 12, 13, 32, 160, 5760, 8232, 8233, 8239, 8287, 12288, 65279}
     \<or> (8192 \<le> c \<and> c \<le> 8202)"

definition trim :: "jsstring \<Rightarrow> jsstring" where
  "trim s = rev (dropWhile js_space (rev (dropWhile js_space s)))"

text \<open>\<open>s.startsWith(w)\<close> and \<open>s.includes(w)\<close> for strings.\<close>

definition startsWith :: "jsstring \<Rightarrow> jsstring \<Rightarrow> bool" where
  "startsWith s w \<longleftrightarrow> take (length w) s = w"

fun js_includes :: "jsstring \<Rightarrow> jsstring \<Rightarrow> bool" where
  "js_includes [] w = (w = [])"
| "js_includes (c # cs) w = (startsWith (c # cs) w \<or> js_includes cs w)"

section \<open>The page scanner (content.js, extractChineseTexts)\<close>

text \<open>
  A snapshot of the document: text nodes carry their data, elements their tag and
  children, comments their data. A node is referred to by its path, the child indices
  from the root of the walk.
\<close>

datatype dom_node =
    Text jsstring
  | Element jsstring "dom_node list"
  | Comment jsstring

type_synonym path = "nat list"

text \<open>A text candidate: \<open>{node, text, parent}\<close>; \<open>parentNode\<close> may be null.\<close>

record ('n, 'p) candidate =
  node :: 'n
  text' :: jsstring
  parent :: "'p option"

text \<open>
  The text nodes below a node in document order, each with its path and its
  \<open>textContent\<close>: what a TreeWalker with \<open>SHOW_TEXT\<close> presents to its filter. The
  root of the walk is never presented.
\<close>

fun text_nodes :: "path \<Rightarrow> dom_node \<Rightarrow> (path \<times> jsstring) list"
  and text_nodes_from :: "path \<Rightarrow> nat \<Rightarrow> dom_node list \<Rightarrow> (path \<times> jsstring) list" where
  "text_nodes p (Text s) = [(p, s)]"
| "text_nodes p (Element t cs) = text_nodes_from p 0 cs"
| "text_nodes p (Comment s) = []"
| "text_nodes_from p i [] = []"
| "text_nodes_from p i (c # cs) = text_nodes (p @ [i]) c @ text_nodes_from p (Suc i) cs"

definition descendant_texts :: "dom_node \<Rightarrow> (path \<times> jsstring) list" where
  "descendant_texts start = (case start of Element t cs \<Rightarrow> text_nodes_from [] 0 cs | _ \<Rightarrow> [])"

text \<open>The test of the scanner's regular expression, the class of U+4E00..U+9FFF: some
  code unit of the text is in the range.\<close>

definition is_cjk :: "jschar \<Rightarrow> bool" where
  "is_cjk c \<longleftrightarrow> 0x4E00 \<le> c \<and> c \<le> 0x9FFF"

definition chineseRegex_test :: "jsstring \<Rightarrow> bool" where
  "chineseRegex_test s = list_ex is_cjk s"

datatype filter_result = FILTER_ACCEPT | FILTER_REJECT

definition acceptNode :: "jsstring \<Rightarrow> filter_result" where
  "acceptNode textContent =
     (let t = trim textContent in
      if length t < 2 then FILTER_REJECT
      else if chineseRegex_test t then FILTER_ACCEPT
      else FILTER_REJECT)"

text \<open>The loop over \<open>walker.nextNode()\<close>: each accepted node is pushed when its trimmed
  text has at least two code units.\<close>

fun push_texts :: "(path \<times> jsstring) list \<Rightarrow> (path, path) candidate list
    \<Rightarrow> (path, path) candidate list" where
  "push_texts [] chineseTexts = chineseTexts"
| "push_texts ((p, s) # rest) chineseTexts =
     (let t = trim s in
      if length t \<ge> 2
      then push_texts rest (chineseTexts @ [\<lparr>node = p, text' = t, parent = Some (butlast p)\<rparr>])
      else push_texts rest chineseTexts)"

definition extractChineseTexts :: "dom_node \<Rightarrow> (path, path) candidate list" where
  "extractChineseTexts body =
     push_texts (filter (\<lambda>(p, s). acceptNode s = FILTER_ACCEPT) (descendant_texts body)) []"

section \<open>Numbers\<close>

text \<open>
  A JavaScript number is an IEEE 754 double: a finite value, an infinity or NaN. A finite
  double is modelled by the real number it denotes; the two zeros are not told apart,
  which the operations below do not either. An arithmetic operation yields the exact
  result rounded to the nearest double, ties to even.
\<close>

datatype jsnum = Finite real | PosInf | NegInf | NaN

text \<open>
  The exponent of the power of two at or below a positive number: how often a number
  from 1 on can be halved before it falls below 2, and how often a number below 1 must
  be doubled to reach 1.
\<close>

function halvings :: "real \<Rightarrow> int" where
  "halvings a = (if a < 2 then 0 else 1 + halvings (a / 2))"
  by pat_completeness auto
termination
proof (relation "measure (\<lambda>a. nat \<lceil>a\<rceil>)")
  show "wf (measure (\<lambda>a::real. nat \<lceil>a\<rceil>))" by simp
next
  fix a :: real
  assume "\<not> a < 2"
  then have h: "a / 2 \<le> real_of_int (\<lceil>a\<rceil> - 1)" and c: "2 \<le> \<lceil>a\<rceil>"
    by linarith+
  from h have "\<lceil>a / 2\<rceil> \<le> \<lceil>a\<rceil> - 1" by (rule ceiling_le)
  with c show "(a / 2, a) \<in> measure (\<lambda>a. nat \<lceil>a\<rceil>)" by simp
qed

function doublings :: "real \<Rightarrow> int" where
  "doublings a = (if a \<le> 0 \<or> 1 \<le> a then 0 else doublings (2 * a) - 1)"
  by pat_completeness auto
termination
proof (relation "measure (\<lambda>a. nat \<lceil>1 / a\<rceil>)")
  show "wf (measure (\<lambda>a::real. nat \<lceil>1 / a\<rceil>))" by simp
next
  fix a :: real
  assume "\<not> (a \<le> 0 \<or> 1 \<le> a)"
  then have a: "0 < a" "a < 1" by simp_all
  then have "1 < 1 / a" by simp
  then have c: "2 \<le> \<lceil>1 / a\<rceil>" by linarith
  have "1 / (2 * a) = (1 / a) / 2" by simp
  also have "\<dots> \<le> real_of_int \<lceil>1 / a\<rceil> / 2" by (simp add: divide_right_mono)
  also have "\<dots> \<le> real_of_int (\<lceil>1 / a\<rceil> - 1)" using c by simp
  finally have "\<lceil>1 / (2 * a)\<rceil> \<le> \<lceil>1 / a\<rceil> - 1" by (rule ceiling_le)
  with c have "nat \<lceil>1 / (2 * a)\<rceil> < nat \<lceil>1 / a\<rceil>" by linarith
  then show "(2 * a, a) \<in> measure (\<lambda>a. nat \<lceil>1 / a\<rceil>)" unfolding in_measure .
qed

declare halvings.simps [simp del] doublings.simps [simp del]

definition ilog2 :: "real \<Rightarrow> int" where
  "ilog2 a = (if 1 \<le> a then halvings a else doublings a)"

definition pow2 :: "int \<Rightarrow> real" where
  "pow2 e = (if 0 \<le> e then 2 ^ nat e else 1 / 2 ^ nat (- e))"

text \<open>Rounding to the nearest integer, a tie to the even one.\<close>

definition round_even :: "real \<Rightarrow> int" where
  "round_even q =
     (let f = \<lfloor>q\<rfloor>; d = q - of_int f in
      if d < 1 / 2 then f
      else if 1 / 2 < d then f + 1
      else if even f then f else f + 1)"

text \<open>
  Rounding a magnitude \<open>a > 0\<close> to a double. A double has 53 significant bits and its
  last bit is worth at least \<open>2 ^ (- 1074)\<close>: \<open>exponent_of a\<close> is the exponent of the last
  bit, \<open>significand a\<close> is \<open>a\<close> in units of the last bit, rounded. The rounded magnitude
  \<open>significand a * 2 ^ exponent_of a\<close> reaches \<open>2 ^ 1024\<close>, beyond the largest double,
  exactly when \<open>overflows a\<close>; the result is then an infinity.
\<close>

definition exponent_of :: "real \<Rightarrow> int" where
  "exponent_of a = max (ilog2 a - 52) (- 1074)"

definition significand :: "real \<Rightarrow> int" where
  "significand a = round_even (a / pow2 (exponent_of a))"

definition overflows :: "real \<Rightarrow> bool" where
  "overflows a \<longleftrightarrow>
     971 < exponent_of a \<or> (exponent_of a = 971 \<and> 2 ^ 53 \<le> significand a)"

definition to_double :: "real \<Rightarrow> jsnum" where
  "to_double x =
     (if x = 0 then Finite 0
      else if overflows \<bar>x\<bar> then (if 0 < x then PosInf else NegInf)
      else
        (let r = of_int (significand \<bar>x\<bar>) * pow2 (exponent_of \<bar>x\<bar>)
         in Finite (if 0 < x then r else - r)))"

text \<open>
  The operations of the sampler. \<open>length_times n p\<close> is \<open>texts.length * percentage\<close>
  for a list of \<open>n\<close> elements (a length is below \<open>2 ^ 32\<close> and so a double itself);
  \<open>divided_by x d\<close> is \<open>x / d\<close> for a finite divisor \<open>d > 0\<close>; \<open>Math_floor\<close> and
  \<open>Math_max\<close> are \<open>Math.floor\<close> and \<open>Math.max\<close> of two arguments.
\<close>

definition length_times :: "nat \<Rightarrow> jsnum \<Rightarrow> jsnum" where
  "length_times n p =
     (case p of
        Finite r \<Rightarrow> to_double (real n * r)
      | PosInf \<Rightarrow> (if n = 0 then NaN else PosInf)
      | NegInf \<Rightarrow> (if n = 0 then NaN else NegInf)
      | NaN \<Rightarrow> NaN)"

definition divided_by :: "jsnum \<Rightarrow> real \<Rightarrow> jsnum" where
  "divided_by x d = (case x of Finite r \<Rightarrow> to_double (r / d) | _ \<Rightarrow> x)"

definition Math_floor :: "jsnum \<Rightarrow> jsnum" where
  "Math_floor x = (case x of Finite r \<Rightarrow> Finite (of_int \<lfloor>r\<rfloor>) | _ \<Rightarrow> x)"

fun Math_max :: "jsnum \<Rightarrow> jsnum \<Rightarrow> jsnum" where
  "Math_max NaN y = NaN"
| "Math_max x NaN = NaN"
| "Math_max PosInf y = PosInf"
| "Math_max x PosInf = PosInf"
| "Math_max NegInf y = y"
| "Math_max x NegInf = x"
| "Math_max (Finite a) (Finite b) = Finite (max a b)"

section \<open>The sampler (content.js, randomSelectTexts)\<close>

text \<open>
  \<open>xs.slice(0, end)\<close>: the end is converted to an integer or an infinity (NaN to 0, a
  fraction towards 0), a negative end counts from the back, and the end is clamped to
  the length.
\<close>

definition slice0 :: "'a list \<Rightarrow> jsnum \<Rightarrow> 'a list" where
  "slice0 xs e =
     (case e of
        NaN \<Rightarrow> []
      | NegInf \<Rightarrow> []
      | PosInf \<Rightarrow> xs
      | Finite r \<Rightarrow>
          (let len = int (length xs);
               k = (if 0 \<le> r then \<lfloor>r\<rfloor> else \<lceil>r\<rceil>);
               final = (if k < 0 then max (len + k) 0 else min k len)
           in take (nat final) xs))"

text \<open>
  \<open>[...texts].sort(() => Math.random() - 0.5)\<close> yields some rearrangement of the
  texts, decided by the engine's sort and the random source; the rearranged list is the
  argument \<open>shuffled\<close>, and \<open>shuffle_of\<close> says what the engine guarantees of it.
\<close>

definition shuffle_of :: "'a list \<Rightarrow> 'a list \<Rightarrow> bool" where
  "shuffle_of texts shuffled \<longleftrightarrow> mset shuffled = mset texts"

definition randomSelectTexts :: "'a list \<Rightarrow> jsnum \<Rightarrow> 'a list \<Rightarrow> 'a list" where
  "randomSelectTexts texts percentage shuffled =
     (let count = Math_max (Finite 1) (Math_floor (length_times (length texts) percentage))
      in slice0 shuffled count)"

text \<open>
  The fraction handed to the sampler by \<open>extractAndTranslateChinese\<close>:
  \<open>(translatorConfig?.selectionPercentage || DEFAULT_CONFIG.selectionPercentage) / 100\<close>
  with the content script's default of 40, for a selection percentage that is a number;
  \<open>None\<close> is an absent field, and 0 and NaN are falsy.
\<close>

definition truthy_number :: "jsnum \<Rightarrow> bool" where
  "truthy_number v = (case v of Finite r \<Rightarrow> r \<noteq> 0 | NaN \<Rightarrow> False | _ \<Rightarrow> True)"

definition selectionFraction :: "jsnum option \<Rightarrow> jsnum" where
  "selectionFraction sp =
     divided_by (case sp of None \<Rightarrow> Finite 40
                 | Some v \<Rightarrow> if truthy_number v then v else Finite 40) 100"

section \<open>Values and the stored configuration\<close>

text \<open>
  The values that storage and the backend's JSON can hold. Numbers are reals, with NaN
  apart; an object is a list of its properties.
\<close>

datatype jsval =
    JUndefined
  | JNull
  | JBool bool
  | JNum real
  | JNaN
  | JStr jsstring
  | JObj "(string \<times> jsval) list"
  | JArr "jsval list"

datatype js_exn = TypeError | SyntaxError | NetworkError | HttpError nat | DOMException | StorageError

fun truthy :: "jsval \<Rightarrow> bool" where
  "truthy JUndefined = False"
| "truthy JNull = False"
| "truthy (JBool b) = b"
| "truthy (JNum r) = (r \<noteq> 0)"
| "truthy JNaN = False"
| "truthy (JStr s) = (s \<noteq> [])"
| "truthy (JObj kvs) = True"
| "truthy (JArr vs) = True"

text \<open>\<open>a || b\<close>, and the property read \<open>v.k\<close> of a value that is not null or undefined.\<close>

definition js_or :: "jsval \<Rightarrow> jsval \<Rightarrow> jsval" where
  "js_or a b = (if truthy a then a else b)"

definition get_prop :: "jsval \<Rightarrow> string \<Rightarrow> jsval" where
  "get_prop v k = (case v of
       JObj kvs \<Rightarrow> (case map_of kvs k of None \<Rightarrow> JUndefined | Some x \<Rightarrow> x)
     | _ \<Rightarrow> JUndefined)"

text \<open>A configuration object: its own properties by key. A missing key reads as
  undefined.\<close>

type_synonym config = "string \<rightharpoonup> jsval"

definition get_field :: "config \<Rightarrow> string \<Rightarrow> jsval" where
  "get_field c k = (case c k of None \<Rightarrow> JUndefined | Some v \<Rightarrow> v)"

text \<open>The three tables of defaults: of the content script, of popup.js, and of the
  settings script that follows it in the same file.\<close>

definition systemPrompt_default :: jsstring where
  "systemPrompt_default =
     [20320, 26159, 19968, 20010, 33521, 35821, 32763, 35793, 19987, 23478, 65292, 31934,
      36890, 20110, 26681, 25454, 20013, 25991, 19978, 19979, 25991, 21435, 32763, 35793,
      35789, 27719, 30340, 24847, 24605, 12290]"

definition userPromptTemplate_default :: jsstring where
  "userPromptTemplate_default =
     [32763, 35793, 19979, 38754, 21477, 23376, 20013, 30340, 12300] @ asc ''{target_word}''
     @ [12301, 65306] @ asc ''{context_sentence}''"

definition DEFAULT_CONFIG_content :: config where
  "DEFAULT_CONFIG_content =
     [''serverUrl'' \<mapsto> JStr (asc ''http://127.0.0.1:5000''),
      ''apiUrl'' \<mapsto> JStr [],
      ''apiKey'' \<mapsto> JStr [],
      ''modelName'' \<mapsto> JStr [],
      ''systemPrompt'' \<mapsto> JStr systemPrompt_default,
      ''userPromptTemplate'' \<mapsto> JStr userPromptTemplate_default,
      ''selectionPercentage'' \<mapsto> JNum 40]"

definition DEFAULT_CONFIG_popup :: config where
  "DEFAULT_CONFIG_popup =
     [''serverUrl'' \<mapsto> JStr (asc ''http://127.0.0.1:5000''),
      ''apiUrl'' \<mapsto> JStr [],
      ''apiKey'' \<mapsto> JStr [],
      ''modelName'' \<mapsto> JStr [],
      ''systemPrompt'' \<mapsto> JStr systemPrompt_default,
      ''userPromptTemplate'' \<mapsto> JStr userPromptTemplate_default]"

definition DEFAULT_CONFIG_settings :: config where
  "DEFAULT_CONFIG_settings =
     [''serverUrl'' \<mapsto> JStr (asc ''http://127.0.0.1:5000''),
      ''apiUrl'' \<mapsto> JStr (asc ''http://localhost:8080/v1/chat/completions''),
      ''apiKey'' \<mapsto> JStr [],
      ''modelName'' \<mapsto> JStr [],
      ''systemPrompt'' \<mapsto> JStr systemPrompt_default,
      ''userPromptTemplate'' \<mapsto> JStr userPromptTemplate_default]"

text \<open>
  The merge \<open>{...DEFAULT_CONFIG, ...config, lastUpdated: config.lastUpdated || Date.now()}\<close>:
  a spread copies every own property and a later one overrides an earlier one.
\<close>

definition mergeConfig :: "config \<Rightarrow> config \<Rightarrow> real \<Rightarrow> config" where
  "mergeConfig defaults cfg now =
     (defaults ++ cfg)(''lastUpdated'' \<mapsto> js_or (get_field cfg ''lastUpdated'') (JNum now))"

text \<open>
  The outcome of \<open>chrome.storage.sync.get('translatorConfig')\<close>: the promise rejects,
  or resolves with the stored object, \<open>None\<close> when nothing is stored. An object is
  truthy, so \<open>result.translatorConfig || {}\<close> is the stored object, or the empty one.
\<close>

type_synonym storage_read = "js_exn + config option"

definition getStoredConfig_in :: "config \<Rightarrow> storage_read \<Rightarrow> real \<Rightarrow> config" where
  "getStoredConfig_in defaults got now =
     (case got of
        Inr result \<Rightarrow>
          (let cfg = (case result of None \<Rightarrow> Map.empty | Some c \<Rightarrow> c)
           in mergeConfig defaults cfg now)
      | Inl error \<Rightarrow> defaults(''lastUpdated'' \<mapsto> JNum now))"

definition getStoredConfig :: "storage_read \<Rightarrow> real \<Rightarrow> config" where
  "getStoredConfig = getStoredConfig_in DEFAULT_CONFIG_popup"

definition getStoredConfig_settings :: "storage_read \<Rightarrow> real \<Rightarrow> config" where
  "getStoredConfig_settings = getStoredConfig_in DEFAULT_CONFIG_settings"

text \<open>
  \<open>loadTranslatorConfig\<close> of the content script computes the value it assigns to
  \<open>translatorConfig\<close>; \<open>has_storage\<close> is the test
  \<open>typeof chrome !== 'undefined' && chrome.storage\<close>.
\<close>

definition loadTranslatorConfig :: "bool \<Rightarrow> storage_read \<Rightarrow> real \<Rightarrow> config" where
  "loadTranslatorConfig has_storage got now =
     (if has_storage then
        (case got of
           Inr result \<Rightarrow>
             (let cfg = (case result of None \<Rightarrow> Map.empty | Some c \<Rightarrow> c)
              in mergeConfig DEFAULT_CONFIG_content cfg now)
         | Inl error \<Rightarrow> DEFAULT_CONFIG_content(''lastUpdated'' \<mapsto> JNum now))
      else DEFAULT_CONFIG_content(''lastUpdated'' \<mapsto> JNum now))"

text \<open>The stored object a read yields, for stating properties of the merge.\<close>

definition stored_object :: "storage_read \<Rightarrow> config" where
  "stored_object got = (case got of Inr (Some c) \<Rightarrow> c | _ \<Rightarrow> Map.empty)"

section \<open>The URL validator and saving the settings (popup.js)\<close>

text \<open>
  \<open>new URL(string)\<close> is the platform's parser: it throws a TypeError or returns a URL
  object, of which the code reads \<open>protocol\<close>. The parser is a parameter.
\<close>

record url =
  protocol :: jsstring

type_synonym url_parser = "jsstring \<Rightarrow> js_exn + url"

definition isValidUrl :: "url_parser \<Rightarrow> jsstring \<Rightarrow> bool" where
  "isValidUrl URL string =
     (case URL string of
        Inr u \<Rightarrow> protocol u = asc ''http:'' \<or> protocol u = asc ''https:''
      | Inl _ \<Rightarrow> False)"

text \<open>The values of the six inputs of the form.\<close>

record form =
  serverUrlInput :: jsstring
  apiUrlInput :: jsstring
  apiKeyInput :: jsstring
  modelNameInput :: jsstring
  systemPromptInput :: jsstring
  userPromptTemplateInput :: jsstring

text \<open>
  The state the popup acts on: the entry \<open>translatorConfig\<close> of the synchronised
  storage, the calls of \<open>chrome.storage.sync.set\<close> made so far, the status line
  (message and type; how it is rendered and hidden again is left out), the six lines
  that display the current settings, and the number of update notifications sent to the
  tabs.
\<close>

record popup_state =
  stored :: "config option"
  set_calls :: "config list"
  status :: "(jsstring \<times> string) option"
  currentServerUrlDiv :: jsstring
  currentApiUrlDiv :: jsstring
  currentModelDiv :: jsstring
  currentApiKeyDiv :: jsstring
  currentSystemPromptDiv :: jsstring
  currentUserPromptTemplateDiv :: jsstring
  notifications :: nat

definition showStatus :: "jsstring \<Rightarrow> string \<Rightarrow> popup_state \<Rightarrow> popup_state" where
  "showStatus message type st = st\<lparr>status := Some (message, type)\<rparr>"

definition unset_label :: jsstring where
  "unset_label = [26410, 35774, 32622]"

definition set_label :: jsstring where
  "set_label = [24050, 35774, 32622]"

definition or_unset :: "jsstring \<Rightarrow> jsstring" where
  "or_unset s = (if s \<noteq> [] then s else unset_label)"

definition msg_server_required :: jsstring where
  "msg_server_required = [35831, 36755, 20837, 21518, 31471, 26381, 21153, 22320, 22336]"

definition msg_server_invalid :: jsstring where
  "msg_server_invalid =
     [35831, 36755, 20837, 26377, 25928, 30340, 21518, 31471, 26381, 21153] @ asc ''URL''
     @ [22320, 22336]"

definition msg_api_invalid :: jsstring where
  "msg_api_invalid =
     [35831, 36755, 20837, 26377, 25928, 30340] @ asc ''API URL'' @ [22320, 22336]"

definition msg_template_needs :: "jsstring \<Rightarrow> jsstring" where
  "msg_template_needs placeholder =
     [29992, 25143, 25552, 31034, 35789, 27169, 26495, 24517, 39035, 21253, 21547, 32]
     @ placeholder @ [32, 21344, 20301, 31526]"

definition msg_saved :: jsstring where
  "msg_saved = [35774, 32622, 20445, 23384, 25104, 21151, 65281]"

definition msg_save_failed :: jsstring where
  "msg_save_failed = [20445, 23384, 35774, 32622, 22833, 36133]"

text \<open>
  \<open>saveSettings\<close>. \<open>set_outcome\<close> says whether \<open>chrome.storage.sync.set\<close> rejects for
  a given object; when it resolves, the object is the stored entry.
\<close>

definition saveSettings ::
  "url_parser \<Rightarrow> (config \<Rightarrow> js_exn option) \<Rightarrow> real \<Rightarrow> form \<Rightarrow> popup_state \<Rightarrow> popup_state" where
  "saveSettings URL set_outcome now f st =
     (let serverUrl = trim (serverUrlInput f);
          apiUrl = trim (apiUrlInput f);
          apiKey = trim (apiKeyInput f);
          modelName = trim (modelNameInput f);
          systemPrompt = trim (systemPromptInput f);
          userPromptTemplate = trim (userPromptTemplateInput f)
      in
      if serverUrl = [] then showStatus msg_server_required ''error'' st
      else if \<not> isValidUrl URL serverUrl then showStatus msg_server_invalid ''error'' st
      else if apiUrl \<noteq> [] \<and> \<not> isValidUrl URL apiUrl then showStatus msg_api_invalid ''error'' st
      else if userPromptTemplate \<noteq> [] \<and> \<not> js_includes userPromptTemplate (asc ''{target_word}'')
        then showStatus (msg_template_needs (asc ''{target_word}'')) ''error'' st
      else if userPromptTemplate \<noteq> [] \<and> \<not> js_includes userPromptTemplate (asc ''{context_sentence}'')
        then showStatus (msg_template_needs (asc ''{context_sentence}'')) ''error'' st
      else
        (let config =
               [''serverUrl'' \<mapsto> JStr serverUrl,
                ''apiUrl'' \<mapsto> JStr apiUrl,
                ''apiKey'' \<mapsto> JStr apiKey,
                ''modelName'' \<mapsto> JStr modelName,
                ''systemPrompt'' \<mapsto> JStr systemPrompt,
                ''userPromptTemplate'' \<mapsto> JStr userPromptTemplate,
                ''lastUpdated'' \<mapsto> JNum now];
             called = st\<lparr>set_calls := set_calls st @ [config]\<rparr>
         in case set_outcome config of
              Some error \<Rightarrow> showStatus msg_save_failed ''error'' called
            | None \<Rightarrow>
                (showStatus msg_saved ''success'' (called\<lparr>stored := Some config\<rparr>))
                  \<lparr>currentServerUrlDiv := serverUrl,
                   currentApiUrlDiv := or_unset apiUrl,
                   currentModelDiv := or_unset modelName,
                   currentApiKeyDiv := (if apiKey \<noteq> [] then set_label else unset_label),
                   currentSystemPromptDiv := take 20 (or_unset systemPrompt) @ asc ''...'',
                   currentUserPromptTemplateDiv := take 20 (or_unset userPromptTemplate) @ asc ''...'',
                   notifications := Suc (notifications st)\<rparr>))"

text \<open>
  The validation checks as the specification lists them, on the trimmed inputs: the
  server URL is empty, the server URL or a non-empty API URL is not a valid http or
  https URL, or a non-empty user prompt template lacks a placeholder.
\<close>

definition validation_fails :: "url_parser \<Rightarrow> form \<Rightarrow> bool" where
  "validation_fails URL f \<longleftrightarrow>
     trim (serverUrlInput f) = []
     \<or> \<not> isValidUrl URL (trim (serverUrlInput f))
     \<or> (trim (apiUrlInput f) \<noteq> [] \<and> \<not> isValidUrl URL (trim (apiUrlInput f)))
     \<or> (trim (userPromptTemplateInput f) \<noteq> []
         \<and> (\<not> js_includes (trim (userPromptTemplateInput f)) (asc ''{target_word}'')
            \<or> \<not> js_includes (trim (userPromptTemplateInput f)) (asc ''{context_sentence}'')))"

section \<open>The annotator (content.js, annotateWordInText)\<close>

text \<open>
  What the content script asks of the browser. The document is a value of any type
  \<open>'d\<close>; text nodes and parent nodes are referred to by values of the types \<open>'n\<close> and
  \<open>'p\<close>.
  \<^item> \<open>get_innerHTML\<close> reads \<open>parent.innerHTML\<close>, \<open>None\<close> when it is undefined;
  \<^item> \<open>set_innerHTML\<close> and \<open>set_textContent\<close> assign them and may throw, leaving the
    document as it was;
  \<^item> \<open>regexp_replace pattern subject replacement\<close> is
    \<open>subject.replace(new RegExp(pattern, 'g'), replacement)\<close>, which throws where the
    pattern is not a regular expression;
  \<^item> \<open>toString_other\<close> converts a number, an object or an array to a string;
  \<^item> \<open>fetch n request\<close> is the outcome of the request issued after \<open>n\<close> earlier ones;
  \<^item> \<open>storage_present\<close>, \<open>sync_get\<close> and \<open>date_now\<close> are what \<open>loadTranslatorConfig\<close>
    reads;
  \<^item> \<open>fresh_id i\<close> is the text of \<open>Date.now()\<close> and of the random suffix drawn in the
    \<open>i\<close>-th round of the translation loop.
\<close>

record request =
  url :: jsstring
  http_method :: string
  content_type :: string
  body :: jsval

datatype fetch_outcome =
    Rejected js_exn
  | Response bool nat "js_exn + jsval"

record ('d, 'n, 'p) platform =
  get_innerHTML :: "'d \<Rightarrow> 'p \<Rightarrow> jsstring option"
  set_innerHTML :: "'d \<Rightarrow> 'p \<Rightarrow> jsstring \<Rightarrow> js_exn + 'd"
  set_textContent :: "'d \<Rightarrow> 'n \<Rightarrow> jsstring \<Rightarrow> js_exn + 'd"
  regexp_replace :: "jsstring \<Rightarrow> jsstring \<Rightarrow> jsstring \<Rightarrow> js_exn + jsstring"
  toString_other :: "jsval \<Rightarrow> jsstring"
  fetch :: "nat \<Rightarrow> request \<Rightarrow> fetch_outcome"
  storage_present :: bool
  sync_get :: storage_read
  date_now :: real
  fresh_id :: "nat \<Rightarrow> jsstring \<times> jsstring"

text \<open>
  What the loop of \<open>translateSelectedTexts\<close> leaves behind, in order: the line it logs
  when a round starts (with the round's number and the sentence), a request handed to
  \<open>fetch\<close>, the settling of that request's promise, the error logged by the round's
  \<open>catch\<close>, the line logged when the backend returned no usable result, and the
  pause of 500 ms that ends a round.
\<close>

datatype event =
    Translating nat jsstring
  | Fetch request
  | Settled
  | Caught js_exn
  | NoValidResult
  | Delay500

text \<open>
  The state of the content script: the document, the identifiers of the words whose
  hover handlers are scheduled, the module variable \<open>translatorConfig\<close> (\<open>None\<close> is
  null) and the trace of events.
\<close>

record 'd content_state =
  document :: 'd
  timers :: "jsstring list"
  translatorConfig :: "config option"
  trace :: "event list"

definition hoverableWordId :: "jsstring \<times> jsstring \<Rightarrow> jsstring" where
  "hoverableWordId fresh = asc ''translens-word-'' @ fst fresh @ asc ''-'' @ snd fresh"

definition hoverableWord :: "jsstring \<Rightarrow> jsstring \<Rightarrow> jsstring \<Rightarrow> jsstring" where
  \<open>hoverableWord wordId targetWord translation =
     asc ''<span id="'' @ wordId
     @ asc ''" class="translens-hoverable-word" style="cursor: pointer; color: #1e3a5f; ''
     @ asc ''font-weight: bold; text-decoration: underline; background-color: #e8f4f8; ''
     @ asc ''padding: 1px 2px; border-radius: 2px; transition: background-color 0.2s; ''
     @ asc ''position: relative;" data-word="'' @ targetWord
     @ asc ''" data-translation="'' @ translation @ asc ''">'' @ targetWord @ asc ''</span>''\<close>

definition styledAnnotation :: "jsstring \<Rightarrow> jsstring" where
  \<open>styledAnnotation translation =
     asc ''<span style="color: #ff6b35; font-weight: bold; background-color: #fff3cd; ''
     @ asc ''padding: 1px 4px; border-radius: 3px; font-size: 0.85em; margin-left: 2px;">''
     @ [0x3010] @ translation @ [0x3011] @ asc ''</span>''\<close>

text \<open>The plain-text annotation, used when the parent has no \<open>innerHTML\<close> or assigning
  it threw.\<close>

definition annotate_as_text ::
  "('d, 'n, 'p) platform \<Rightarrow> ('n, 'p) candidate \<Rightarrow> jsstring \<Rightarrow> jsstring
    \<Rightarrow> 'd content_state \<Rightarrow> js_exn + 'd content_state" where
  "annotate_as_text P textData targetWord translation st =
     (let annotation = [32, 0x3010] @ translation @ [0x3011] in
      case regexp_replace P targetWord (text' textData) (targetWord @ annotation) of
        Inl error \<Rightarrow> Inl error
      | Inr newText \<Rightarrow>
          (case set_textContent P (document st) (node textData) newText of
             Inr d \<Rightarrow> Inr (st\<lparr>document := d\<rparr>)
           | Inl error \<Rightarrow> Inr st))"

definition annotateWordInText ::
  "('d, 'n, 'p) platform \<Rightarrow> jsstring \<times> jsstring \<Rightarrow> ('n, 'p) candidate \<Rightarrow> jsstring \<Rightarrow> jsstring
    \<Rightarrow> 'd content_state \<Rightarrow> js_exn + 'd content_state" where
  "annotateWordInText P fresh textData targetWord translation st =
     (let originalText = text' textData in
      if js_includes originalText targetWord then
        (case parent textData of
           None \<Rightarrow> annotate_as_text P textData targetWord translation st
         | Some par \<Rightarrow>
             (case get_innerHTML P (document st) par of
                None \<Rightarrow> annotate_as_text P textData targetWord translation st
              | Some currentHTML \<Rightarrow>
                  (let wordId = hoverableWordId fresh in
                   case regexp_replace P targetWord currentHTML
                          (hoverableWord wordId targetWord translation @ styledAnnotation translation) of
                     Inl error \<Rightarrow> Inl error
                   | Inr newHTML \<Rightarrow>
                       (case set_innerHTML P (document st) par newHTML of
                          Inr d \<Rightarrow> Inr (st\<lparr>document := d, timers := timers st @ [wordId]\<rparr>)
                        | Inl error \<Rightarrow> annotate_as_text P textData targetWord translation st))))
      else Inr st)"

section \<open>The translation client (content.js)\<close>

text \<open>Conversion to a string, in template literals and in the string methods.\<close>

definition ToString :: "('d, 'n, 'p) platform \<Rightarrow> jsval \<Rightarrow> jsstring" where
  "ToString P v =
     (case v of
        JStr s \<Rightarrow> s
      | JUndefined \<Rightarrow> asc ''undefined''
      | JNull \<Rightarrow> asc ''null''
      | JBool b \<Rightarrow> (if b then asc ''true'' else asc ''false'')
      | JNaN \<Rightarrow> asc ''NaN''
      | _ \<Rightarrow> toString_other P v)"

definition is_string :: "jsval \<Rightarrow> bool" where
  "is_string v = (case v of JStr s \<Rightarrow> True | _ \<Rightarrow> False)"

text \<open>
  \<open>v ? v.substring(0, 30) + '...' : ...\<close> in the configuration line that
  \<open>callTranslateAPI\<close> logs: a truthy value without a \<open>substring\<close> method throws.
\<close>

definition preview_throws :: "jsval \<Rightarrow> bool" where
  "preview_throws v \<longleftrightarrow> truthy v \<and> \<not> is_string v"

definition fetch_count :: "event list \<Rightarrow> nat" where
  "fetch_count es = length (filter (\<lambda>e. case e of Fetch r \<Rightarrow> True | _ \<Rightarrow> False) es)"

definition translate_request :: "('d, 'n, 'p) platform \<Rightarrow> config \<Rightarrow> jsstring \<Rightarrow> request" where
  "translate_request P cfg sentence =
     \<lparr>url = ToString P (get_field cfg ''serverUrl'') @ asc ''/translate'',
      http_method = ''POST'',
      content_type = ''application/json'',
      body = JObj
        [(''sentence'', JStr sentence),
         (''api_config'', JObj
            [(''api_url'', get_field cfg ''apiUrl''),
             (''api_key'', get_field cfg ''apiKey''),
             (''model_name'', get_field cfg ''modelName''),
             (''system_prompt'', get_field cfg ''systemPrompt''),
             (''user_prompt_template'', get_field cfg ''userPromptTemplate'')])]\<rparr>"

text \<open>
  \<open>callTranslateAPI\<close> returns the parsed result or the error it throws, with the
  state it leaves.
\<close>

definition callTranslateAPI ::
  "('d, 'n, 'p) platform \<Rightarrow> jsstring \<Rightarrow> 'd content_state
    \<Rightarrow> (js_exn + jsval) \<times> 'd content_state" where
  "callTranslateAPI P sentence st =
     (let cfg = (case translatorConfig st of
                   Some c \<Rightarrow> c
                 | None \<Rightarrow> loadTranslatorConfig (storage_present P) (sync_get P) (date_now P));
          st1 = st\<lparr>translatorConfig := Some cfg\<rparr>
      in
      if preview_throws (get_field cfg ''systemPrompt'')
         \<or> preview_throws (get_field cfg ''userPromptTemplate'')
      then (Inl TypeError, st1)
      else
        (let req = translate_request P cfg sentence;
             st2 = st1\<lparr>trace := trace st1 @ [Fetch req, Settled]\<rparr>
         in case fetch P (fetch_count (trace st1)) req of
              Rejected error \<Rightarrow> (Inl error, st2)
            | Response ok code parsed \<Rightarrow>
                if \<not> ok then (Inl (HttpError code), st2)
                else (case parsed of
                        Inl error \<Rightarrow> (Inl error, st2)
                      | Inr result \<Rightarrow> (Inr result, st2))))"

text \<open>
  The body of the \<open>try\<close> of one round: the error it throws, if any, and the state at
  that point.
\<close>

definition translate_try ::
  "('d, 'n, 'p) platform \<Rightarrow> nat \<Rightarrow> ('n, 'p) candidate \<Rightarrow> 'd content_state
    \<Rightarrow> js_exn option \<times> 'd content_state" where
  "translate_try P i textData st =
     (case callTranslateAPI P (text' textData) st of
        (Inl error, st1) \<Rightarrow> (Some error, st1)
      | (Inr result, st1) \<Rightarrow>
          if truthy result \<and> truthy (get_prop result ''target_word'')
             \<and> truthy (get_prop result ''translation'')
          then (case annotateWordInText P (fresh_id P i) textData
                       (ToString P (get_prop result ''target_word''))
                       (ToString P (get_prop result ''translation'')) st1 of
                  Inl error \<Rightarrow> (Some error, st1)
                | Inr st2 \<Rightarrow> (None, st2))
          else (None, st1\<lparr>trace := trace st1 @ [NoValidResult]\<rparr>))"

text \<open>One round of the loop: the log line, the \<open>try\<close> with its \<open>catch\<close>, the pause.\<close>

definition translate_round ::
  "('d, 'n, 'p) platform \<Rightarrow> nat \<Rightarrow> ('n, 'p) candidate \<Rightarrow> 'd content_state \<Rightarrow> 'd content_state" where
  "translate_round P i textData st =
     (let st0 = st\<lparr>trace := trace st @ [Translating (i + 1) (text' textData)]\<rparr>;
          st3 = (case translate_try P i textData st0 of
                   (Some error, st1) \<Rightarrow> st1\<lparr>trace := trace st1 @ [Caught error]\<rparr>
                 | (None, st2) \<Rightarrow> st2)
      in st3\<lparr>trace := trace st3 @ [Delay500]\<rparr>)"

fun translate_loop ::
  "('d, 'n, 'p) platform \<Rightarrow> nat \<Rightarrow> ('n, 'p) candidate list \<Rightarrow> 'd content_state \<Rightarrow> 'd content_state" where
  "translate_loop P i [] st = st"
| "translate_loop P i (textData # rest) st =
     translate_loop P (Suc i) rest (translate_round P i textData st)"

text \<open>\<open>translateSelectedTexts\<close>: the error that leaves the function, or the final state.\<close>

definition translateSelectedTexts ::
  "('d, 'n, 'p) platform \<Rightarrow> ('n, 'p) candidate list \<Rightarrow> 'd content_state
    \<Rightarrow> js_exn + 'd content_state" where
  "translateSelectedTexts P selectedTexts st = Inr (translate_loop P 0 selectedTexts st)"

text \<open>Reading the trace: the rounds started, the requests issued, and whether the
  requests were issued one at a time: \<open>in_flight\<close> follows a list of events from the
  flag "a request is pending" and yields the flag at the end, or \<open>None\<close> when a request
  is issued while another is pending or a settling has no request.\<close>

fun started :: "event list \<Rightarrow> (nat \<times> jsstring) list" where
  "started [] = []"
| "started (Translating i s # es) = (i, s) # started es"
| "started (e # es) = started es"

fun fetches :: "event list \<Rightarrow> request list" where
  "fetches [] = []"
| "fetches (Fetch r # es) = r # fetches es"
| "fetches (e # es) = fetches es"

fun in_flight :: "bool \<Rightarrow> event list \<Rightarrow> bool option" where
  "in_flight pending [] = Some pending"
| "in_flight pending (Fetch r # es) = (if pending then None else in_flight True es)"
| "in_flight pending (Settled # es) = (if pending then in_flight False es else None)"
| "in_flight pending (e # es) = in_flight pending es"

text \<open>The configuration a call of \<open>callTranslateAPI\<close> works with, and the numbered
  sentences of a list of candidates as the rounds log them.\<close>

definition config_in_effect :: "('d, 'n, 'p) platform \<Rightarrow> 'd content_state \<Rightarrow> config" where
  "config_in_effect P st =
     (case translatorConfig st of
        Some c \<Rightarrow> c
      | None \<Rightarrow> loadTranslatorConfig (storage_present P) (sync_get P) (date_now P))"

definition numbered :: "nat \<Rightarrow> ('n, 'p) candidate list \<Rightarrow> (nat \<times> jsstring) list" where
  "numbered i cs = map (\<lambda>(k, c). (k + 1, text' c)) (enumerate i cs)"

text \<open>A failed translation call: the request is rejected, the response is not 2xx, or
  its body is not JSON.\<close>

definition failed_outcome :: "fetch_outcome \<Rightarrow> bool" where
  "failed_outcome out =
     (case out of
        Rejected error \<Rightarrow> True
      | Response ok code parsed \<Rightarrow> \<not> ok \<or> isl parsed)"

text \<open>The events one call adds: none when the configuration line throws, else the
  request and its settling.\<close>

definition call_events :: "('d, 'n, 'p) platform \<Rightarrow> config \<Rightarrow> jsstring \<Rightarrow> event list" where
  "call_events P cfg sentence =
     (if preview_throws (get_field cfg ''systemPrompt'')
         \<or> preview_throws (get_field cfg ''userPromptTemplate'')
      then [] else [Fetch (translate_request P cfg sentence), Settled])"

text \<open>Events that start no round, issue no request and settle none: the logs and the
  pause that a round adds after the call.\<close>

definition quiet :: "event list \<Rightarrow> bool" where
  "quiet es \<longleftrightarrow> started es = [] \<and> fetches es = [] \<and> in_flight False es = Some False \<and> in_flight True es = Some True"

section \<open>Regular expressions without operators\<close>

text \<open>
  \<open>new RegExp(pattern, 'g')\<close> and \<open>String.prototype.replace\<close> belong to the platform.
  This section models them for the patterns in which every character is either the dot
  or no syntax character of the pattern language
  (the fourteen characters of the class SyntaxCharacter of ECMAScript), and for replacement texts without \<open>$\<close>:
  \<^item> the dot matches every code unit but the line terminators LF, CR, U+2028, U+2029,
    any other character matches itself;
  \<^item> with the flag \<open>g\<close>, the matches are replaced from left to right and the search
    goes on after each match.
  For the empty pattern and outside these patterns the model gives \<open>None\<close>.
\<close>

datatype atom = Lit jschar | AnyChar

definition syntax_char :: "jschar \<Rightarrow> bool" where
  "syntax_char c \<longleftrightarrow> c \<in> {94, 36, 92, 46, 42, 43, 63, 40, 41, 91, 93, 123, 125, 124}"

definition line_terminator :: "jschar \<Rightarrow> bool" where
  "line_terminator c \<longleftrightarrow> c \<in> {10, 13, 0x2028, 0x2029}"

fun atoms_of :: "jsstring \<Rightarrow> atom list option" where
  "atoms_of [] = Some []"
| "atoms_of (c # cs) =
     (if c = 46 then map_option ((#) AnyChar) (atoms_of cs)
      else if syntax_char c then None
      else map_option ((#) (Lit c)) (atoms_of cs))"

definition compile_pattern :: "jsstring \<Rightarrow> atom list option" where
  "compile_pattern pattern = (if pattern = [] then None else atoms_of pattern)"

fun atom_matches :: "atom \<Rightarrow> jschar \<Rightarrow> bool" where
  "atom_matches (Lit a) c = (a = c)"
| "atom_matches AnyChar c = (\<not> line_terminator c)"

fun match_here :: "atom list \<Rightarrow> jsstring \<Rightarrow> bool" where
  "match_here [] s = True"
| "match_here (a # as) [] = False"
| "match_here (a # as) (c # cs) = (atom_matches a c \<and> match_here as cs)"

text \<open>Replacing every match; \<open>k\<close> counts the code units of the last match still to be
  passed over.\<close>

fun replace_matches :: "atom list \<Rightarrow> jsstring \<Rightarrow> nat \<Rightarrow> jsstring \<Rightarrow> jsstring" where
  "replace_matches as r k [] = []"
| "replace_matches as r (Suc k) (c # cs) = replace_matches as r k cs"
| "replace_matches as r 0 (c # cs) =
     (if match_here as (c # cs) then r @ replace_matches as r (length as - 1) cs
      else c # replace_matches as r 0 cs)"

definition regexp_replace_plain :: "jsstring \<Rightarrow> jsstring \<Rightarrow> jsstring \<Rightarrow> jsstring option" where
  "regexp_replace_plain pattern subject replacement =
     (case compile_pattern pattern of
        None \<Rightarrow> None
      | Some as \<Rightarrow>
          if 36 \<in> set replacement then None
          else Some (replace_matches as replacement 0 subject))"

text \<open>What the specification asks of the annotator: every occurrence of the word itself,
  from left to right, gives way to the replacement.\<close>

fun replace_occurrences :: "jsstring \<Rightarrow> jsstring \<Rightarrow> nat \<Rightarrow> jsstring \<Rightarrow> jsstring" where
  "replace_occurrences w r k [] = []"
| "replace_occurrences w r (Suc k) (c # cs) = replace_occurrences w r k cs"
| "replace_occurrences w r 0 (c # cs) =
     (if startsWith (c # cs) w then r @ replace_occurrences w r (length w - 1) cs
      else c # replace_occurrences w r 0 cs)"

definition replace_literal :: "jsstring \<Rightarrow> jsstring \<Rightarrow> jsstring \<Rightarrow> jsstring" where
  "replace_literal subject w r = replace_occurrences w r 0 subject"

section \<open>A small platform for worked examples\<close>

text \<open>
  A document that only remembers the \<open>innerHTML\<close> of its elements and the content of
  its text nodes, both by number; assignments never throw. Requests are answered from a
  list, in order, and rejected when the list is used up. Regular expressions are those
  of the section above, so the platform is to be used with such patterns only.
\<close>

record simple_doc =
  html_of :: "nat \<rightharpoonup> jsstring"
  content_of :: "nat \<rightharpoonup> jsstring"

definition simple_platform :: "fetch_outcome list \<Rightarrow> (simple_doc, nat, nat) platform" where
  "simple_platform answers =
     \<lparr>get_innerHTML = (\<lambda>d p. html_of d p),
      set_innerHTML = (\<lambda>d p h. Inr (d\<lparr>html_of := (html_of d)(p \<mapsto> h)\<rparr>)),
      set_textContent = (\<lambda>d n t. Inr (d\<lparr>content_of := (content_of d)(n \<mapsto> t)\<rparr>)),
      regexp_replace = (\<lambda>pattern subject replacement.
         Inr (the (regexp_replace_plain pattern subject replacement))),
      toString_other = (\<lambda>v. asc ''[object Object]''),
      fetch = (\<lambda>n req. if n < length answers then answers ! n else Rejected NetworkError),
      storage_present = True,
      sync_get = Inr None,
      date_now = 0,
      fresh_id = (\<lambda>i. (asc ''1700000000000'', asc ''abcdefghi''))\<rparr>"

text \<open>The values of the worked examples below.\<close>

definition example_page :: dom_node where
  "example_page = Element (asc ''body'')
     [Text [32, 0x4E2D, 0x6587, 10],
      Element (asc ''p'') [Text (asc ''hello''), Text [0x4E2D]],
      Comment [0x4E2D, 0x6587]]"

text \<open>A parser that knows three addresses, for the examples of the validator.\<close>

definition example_URL :: url_parser where
  "example_URL s =
     (if s = asc ''http://127.0.0.1:5000'' then Inr \<lparr>protocol = asc ''http:''\<rparr>
      else if s = asc ''https://example.org/v1'' then Inr \<lparr>protocol = asc ''https:''\<rparr>
      else if s = asc ''ftp://example.org'' then Inr \<lparr>protocol = asc ''ftp:''\<rparr>
      else Inl TypeError)"

definition example_state :: "simple_doc content_state" where
  "example_state =
     \<lparr>document = \<lparr>html_of = [0 \<mapsto> asc ''1.5 '' @ [0x500D] @ asc '' 125''],
             content_of = [0 \<mapsto> asc ''1.5 '' @ [0x500D] @ asc '' 125'']\<rparr>,
      timers = [],
      translatorConfig = None,
      trace = []\<rparr>"

definition example_candidate :: "(nat, nat) candidate" where
  "example_candidate = \<lparr>node = 0, text' = asc ''1.5 '' @ [0x500D] @ asc '' 125'', parent = Some 0\<rparr>"

definition example_stored :: config where
  "example_stored = [''apiUrl'' \<mapsto> JStr [], ''apiKey'' \<mapsto> JStr (asc ''k''), ''lastUpdated'' \<mapsto> JNum 0]"

definition example_form :: form where
  "example_form =
     \<lparr>serverUrlInput = asc '' http://127.0.0.1:5000 '',
      apiUrlInput = [],
      apiKeyInput = [],
      modelNameInput = [],
      systemPromptInput = [],
      userPromptTemplateInput = asc ''translate {target_word}''\<rparr>"

definition example_popup :: popup_state where
  "example_popup =
     \<lparr>stored = Some example_stored, set_calls = [], status = None,
      currentServerUrlDiv = [], currentApiUrlDiv = [], currentModelDiv = [],
      currentApiKeyDiv = [], currentSystemPromptDiv = [], currentUserPromptTemplateDiv = [],
      notifications = 0\<rparr>"

definition second_candidate :: "(nat, nat) candidate" where
  "second_candidate = \<lparr>node = 1, text' = [0x4F60, 0x597D], parent = Some 1\<rparr>"

definition example_answers :: "fetch_outcome list" where
  "example_answers =
     [Response False 500 (Inl SyntaxError),
      Response True 200 (Inr (JObj [(''target_word'', JStr [0x4F60]),
                                    (''translation'', JStr (asc ''you''))]))]"

definition loaded_state :: "simple_doc content_state" where
  "loaded_state = example_state\<lparr>translatorConfig := Some DEFAULT_CONFIG_content\<rparr>"

definition example_markup :: jsstring where
  "example_markup =
     hoverableWord (hoverableWordId (asc ''1700000000000'', asc ''abcdefghi'')) (asc ''1.5'') (asc ''x'')
     @ styledAnnotation (asc ''x'')"

section \<open>Properties of the scanner\<close>

lemma push_texts_append:
  "push_texts ts acc = acc @ push_texts ts []"
proof (induction ts arbitrary: acc)
  case Nil
  show ?case by simp
next
  case (Cons a ts)
  obtain p s where a: "a = (p, s)" by (cases a)
  show ?case
    using Cons.IH [of "acc @ [\<lparr>node = p, text' = trim s, parent = Some (butlast p)\<rparr>]"]
      Cons.IH [of "[\<lparr>node = p, text' = trim s, parent = Some (butlast p)\<rparr>]"] Cons.IH [of acc]
    by (simp add: a Let_def)
qed

lemma push_texts_set:
  "c \<in> set (push_texts ts []) \<Longrightarrow>
     \<exists>p s. (p, s) \<in> set ts \<and> node c = p \<and> text' c = trim s \<and> 2 \<le> length (trim s)"
proof (induction ts)
  case Nil
  then show ?case by simp
next
  case (Cons a ts)
  obtain p s where a: "a = (p, s)" by (cases a)
  show ?case
  proof (cases "2 \<le> length (trim s)")
    case True
    then have "c \<in> set ([\<lparr>node = p, text' = trim s, parent = Some (butlast p)\<rparr>] @ push_texts ts [])"
      using Cons.prems push_texts_append [of ts "[\<lparr>node = p, text' = trim s, parent = Some (butlast p)\<rparr>]"]
      by (simp add: a Let_def)
    then consider "c = \<lparr>node = p, text' = trim s, parent = Some (butlast p)\<rparr>"
      | "c \<in> set (push_texts ts [])" by auto
    then show ?thesis
    proof cases
      case 1
      then show ?thesis using True a by auto
    next
      case 2
      then show ?thesis using Cons.IH by auto
    qed
  next
    case False
    then have "c \<in> set (push_texts ts [])" using Cons.prems by (simp add: a Let_def)
    then show ?thesis using Cons.IH by auto
  qed
qed

lemma text_nodes_prefix:
  "(q, s) \<in> set (text_nodes p n) \<Longrightarrow> \<exists>r. q = p @ r"
  "(q, s) \<in> set (text_nodes_from p i cs) \<Longrightarrow> \<exists>j r. q = p @ j # r \<and> i \<le> j"
proof (induction p n and p i cs arbitrary: q s and q s rule: text_nodes_text_nodes_from.induct)
  case (1 p s')
  then show ?case by simp
next
  case (2 p t cs)
  then show ?case by fastforce
next
  case (3 p s')
  then show ?case by simp
next
  case (4 p i)
  then show ?case by simp
next
  case (5 p i c cs)
  from "5.prems" consider "(q, s) \<in> set (text_nodes (p @ [i]) c)"
    | "(q, s) \<in> set (text_nodes_from p (Suc i) cs)" by auto
  then show ?case
  proof cases
    case 1
    then obtain r where "q = (p @ [i]) @ r" using "5.IH"(1) by blast
    then show ?thesis by auto
  next
    case 2
    then obtain j r where "q = p @ j # r" "Suc i \<le> j" using "5.IH"(2) by blast
    then show ?thesis by (intro exI [of _ j] exI [of _ r]) simp
  qed
qed

lemma text_nodes_distinct:
  "distinct (map fst (text_nodes p n))"
  "distinct (map fst (text_nodes_from p i cs))"
proof (induction p n and p i cs rule: text_nodes_text_nodes_from.induct)
  case (5 p i c cs)
  have "fst ` set (text_nodes (p @ [i]) c) \<inter> fst ` set (text_nodes_from p (Suc i) cs) = {}"
  proof (rule ccontr)
    assume "\<not> ?thesis"
    then obtain q s1 s2 where a: "(q, s1) \<in> set (text_nodes (p @ [i]) c)"
      and b: "(q, s2) \<in> set (text_nodes_from p (Suc i) cs)" by fastforce
    from text_nodes_prefix(1) [OF a] obtain r where r: "q = (p @ [i]) @ r" by blast
    from text_nodes_prefix(2) [OF b] obtain j r' where j: "q = p @ j # r'" "Suc i \<le> j" by blast
    from r j show False by simp
  qed
  then show ?case using "5.IH" by simp
qed simp_all

lemma descendant_texts_distinct: "distinct (map fst (descendant_texts root_node))"
  by (cases root_node) (simp_all add: descendant_texts_def text_nodes_distinct(2))

text \<open>
  Claim C2. Every candidate the scanner produces is a text node of the snapshot whose
  trimmed content has at least two code units and contains a code unit in
  U+4E00..U+9FFF, and its text is that trimmed content; and no text node whose trimmed
  content is shorter than two code units or has no such code unit is among the
  candidates.
\<close>

theorem extractChineseTexts_sound:
  "(\<forall>c \<in> set (extractChineseTexts root_node).
      2 \<le> length (text' c) \<and> (\<exists>ch \<in> set (text' c). 0x4E00 \<le> ch \<and> ch \<le> 0x9FFF)
      \<and> (\<exists>s. (node c, s) \<in> set (descendant_texts root_node) \<and> text' c = trim s))
   \<and> (\<forall>(p, s) \<in> set (descendant_texts root_node).
        length (trim s) < 2 \<or> \<not> (\<exists>ch \<in> set (trim s). 0x4E00 \<le> ch \<and> ch \<le> 0x9FFF)
        \<longrightarrow> p \<notin> node ` set (extractChineseTexts root_node))"
proof -
  let ?acc = "filter (\<lambda>(p, s). acceptNode s = FILTER_ACCEPT) (descendant_texts root_node)"
  have accepted: "2 \<le> length (trim s) \<and> (\<exists>ch \<in> set (trim s). 0x4E00 \<le> ch \<and> ch \<le> 0x9FFF)"
    if "acceptNode s = FILTER_ACCEPT" for s
    using that
    by (auto simp: acceptNode_def Let_def chineseRegex_test_def list_ex_iff is_cjk_def
        split: if_splits)
  have cand: "\<exists>s. (node c, s) \<in> set (descendant_texts root_node) \<and> text' c = trim s
      \<and> acceptNode s = FILTER_ACCEPT"
    if "c \<in> set (extractChineseTexts root_node)" for c
  proof -
    from that obtain p s where "(p, s) \<in> set ?acc" "node c = p" "text' c = trim s"
      using push_texts_set [of c ?acc] by (auto simp: extractChineseTexts_def)
    then show ?thesis by auto
  qed
  have first: "2 \<le> length (text' c) \<and> (\<exists>ch \<in> set (text' c). 0x4E00 \<le> ch \<and> ch \<le> 0x9FFF)
      \<and> (\<exists>s. (node c, s) \<in> set (descendant_texts root_node) \<and> text' c = trim s)"
    if "c \<in> set (extractChineseTexts root_node)" for c
  proof -
    from cand [OF that] obtain s where s: "(node c, s) \<in> set (descendant_texts root_node)"
      "text' c = trim s" "acceptNode s = FILTER_ACCEPT" by blast
    with accepted [of s] show ?thesis by auto
  qed
  have second: "p \<notin> node ` set (extractChineseTexts root_node)"
    if ps: "(p, s) \<in> set (descendant_texts root_node)"
      and bad: "length (trim s) < 2 \<or> \<not> (\<exists>ch \<in> set (trim s). 0x4E00 \<le> ch \<and> ch \<le> 0x9FFF)"
    for p s
  proof
    assume "p \<in> node ` set (extractChineseTexts root_node)"
    then obtain c where c: "c \<in> set (extractChineseTexts root_node)" "node c = p" by auto
    from cand [OF c(1)] obtain s' where s': "(p, s') \<in> set (descendant_texts root_node)"
      "acceptNode s' = FILTER_ACCEPT" using c(2) by auto
    have "s' = s"
      using descendant_texts_distinct [of root_node] ps s'(1) by (meson eq_key_imp_eq_value)
    with accepted [OF s'(2)] bad show False by auto
  qed
  from first second show ?thesis by blast
qed

theorem extractChineseTexts_sound_witness:
  "extractChineseTexts example_page
     = [\<lparr>node = [0], text' = [0x4E2D, 0x6587], parent = Some []\<rparr>]
   \<and> descendant_texts example_page
     = [([0], [32, 0x4E2D, 0x6587, 10]), ([1, 0], asc ''hello''), ([1, 1], [0x4E2D])]
   \<and> length (trim (asc ''hello'')) = 5 \<and> list_ex is_cjk (trim (asc ''hello'')) = False
   \<and> length (trim [0x4E2D]) = 1
   \<and> [1, 0] \<notin> node ` set (extractChineseTexts example_page)
   \<and> [1, 1] \<notin> node ` set (extractChineseTexts example_page)"
proof -
  have d: "descendant_texts example_page
     = [([0], [32, 0x4E2D, 0x6587, 10]), ([1, 0], asc ''hello''), ([1, 1], [0x4E2D])]"
    by (simp add: descendant_texts_def example_page_def)
  have t: "trim [32, 0x4E2D, 0x6587, 10] = [0x4E2D, 0x6587]" "trim (asc ''hello'') = asc ''hello''"
    "trim [0x4E2D] = [0x4E2D]"
    by (simp_all add: trim_def js_space_def asc_def)
  have e: "extractChineseTexts example_page
     = [\<lparr>node = [0], text' = [0x4E2D, 0x6587], parent = Some []\<rparr>]"
    by (simp add: extractChineseTexts_def d acceptNode_def trim_def js_space_def
        chineseRegex_test_def is_cjk_def asc_def)
  from extractChineseTexts_sound [of example_page] d e t show ?thesis
    by (simp add: is_cjk_def asc_def)
qed

section \<open>Properties of the rounding to doubles\<close>

lemma halvings_small: "a < 2 ^ Suc k \<Longrightarrow> halvings a \<le> int k"
proof (induction k arbitrary: a)
  case 0
  then show ?case by (simp add: halvings.simps)
next
  case (Suc k)
  show ?case
  proof (cases "a < 2")
    case True
    then show ?thesis by (simp add: halvings.simps)
  next
    case False
    have "a / 2 < 2 ^ Suc k" using Suc.prems by simp
    then have "halvings (a / 2) \<le> int k" by (rule Suc.IH)
    then show ?thesis using False by (subst halvings.simps) simp
  qed
qed

lemma doublings_nonpos: "doublings a \<le> 0"
proof (induction a rule: doublings.induct)
  case (1 a)
  then show ?case by (subst doublings.simps) auto
qed

lemma ilog2_small: "a < 2 ^ 53 \<Longrightarrow> ilog2 a \<le> 52"
  using halvings_small [of a 52] doublings_nonpos [of a] by (simp add: ilog2_def)

lemma round_even_le: "q \<le> of_int z \<Longrightarrow> round_even q \<le> z"
proof -
  assume q: "q \<le> of_int z"
  have "round_even q \<le> \<lceil>q\<rceil>"
    unfolding round_even_def Let_def by (auto; linarith)
  moreover have "\<lceil>q\<rceil> \<le> z" using q by (rule ceiling_le)
  ultimately show ?thesis by simp
qed

lemma round_even_nonneg: "0 \<le> q \<Longrightarrow> 0 \<le> round_even q"
  unfolding round_even_def Let_def by (auto; linarith)

lemma pow2_pos: "0 < pow2 e"
  by (simp add: pow2_def)

lemma pow2_Suc: "pow2 (e + 1) = 2 * pow2 e"
proof (cases "0 \<le> e")
  case True
  then show ?thesis by (simp add: pow2_def nat_add_distrib)
next
  case False
  then have "nat (- e) = Suc (nat (- (e + 1)))" by simp
  then show ?thesis using False by (cases "e + 1 = 0") (simp_all add: pow2_def)
qed

lemma halvings_bounds:
  "1 \<le> a \<Longrightarrow> pow2 (halvings a) \<le> a \<and> a < pow2 (halvings a + 1)"
proof (induction a rule: halvings.induct)
  case (1 a)
  show ?case
  proof (cases "a < 2")
    case True
    then have "halvings a = 0" by (simp add: halvings.simps)
    then show ?thesis using True "1.prems" by (simp add: pow2_def)
  next
    case False
    then have h: "halvings a = halvings (a / 2) + 1" by (subst halvings.simps) simp
    have "pow2 (halvings (a / 2)) \<le> a / 2 \<and> a / 2 < pow2 (halvings (a / 2) + 1)"
      using "1.IH" False by simp
    then show ?thesis unfolding h pow2_Suc by simp
  qed
qed

lemma doublings_bounds:
  "0 < a \<Longrightarrow> a < 1 \<Longrightarrow> pow2 (doublings a) \<le> a \<and> a < pow2 (doublings a + 1)"
proof (induction a rule: doublings.induct)
  case (1 a)
  have d: "doublings a = doublings (2 * a) - 1"
    using "1.prems" by (subst doublings.simps) simp
  show ?case
  proof (cases "2 * a < 1")
    case True
    then have "pow2 (doublings (2 * a)) \<le> 2 * a \<and> 2 * a < pow2 (doublings (2 * a) + 1)"
      using "1.IH" "1.prems" by simp
    then show ?thesis
      unfolding d using pow2_Suc [of "doublings (2 * a) - 1"] pow2_Suc [of "doublings (2 * a)"]
      by simp
  next
    case False
    then have "doublings (2 * a) = 0" by (subst doublings.simps) simp
    then show ?thesis unfolding d using False "1.prems" by (simp add: pow2_def)
  qed
qed

text \<open>For a positive number, \<open>ilog2\<close> is the exponent of the power of two at or below it.\<close>

lemma ilog2_bounds: "0 < a \<Longrightarrow> pow2 (ilog2 a) \<le> a \<and> a < pow2 (ilog2 a + 1)"
  using halvings_bounds [of a] doublings_bounds [of a] by (simp add: ilog2_def)

lemma round_even_near: "\<bar>real_of_int (round_even q) - q\<bar> \<le> 1 / 2"
  unfolding round_even_def Let_def by (auto; linarith)

text \<open>The rounded magnitude is within half a unit in the last place of the exact one.\<close>

lemma to_double_near:
  "to_double x = Finite r \<Longrightarrow> \<bar>r - x\<bar> \<le> pow2 (exponent_of \<bar>x\<bar>) / 2"
proof -
  assume a: "to_double x = Finite r"
  define e where "e = exponent_of \<bar>x\<bar>"
  have p: "0 < pow2 e" by (rule pow2_pos)
  have "\<bar>real_of_int (significand \<bar>x\<bar>) - \<bar>x\<bar> / pow2 e\<bar> \<le> 1 / 2"
    unfolding significand_def e_def by (rule round_even_near)
  then have "\<bar>real_of_int (significand \<bar>x\<bar>) - \<bar>x\<bar> / pow2 e\<bar> * pow2 e \<le> 1 / 2 * pow2 e"
    using p by (simp only: mult_le_cancel_right_pos)
  moreover have "\<bar>real_of_int (significand \<bar>x\<bar>) - \<bar>x\<bar> / pow2 e\<bar> * pow2 e
      = \<bar>real_of_int (significand \<bar>x\<bar>) * pow2 e - \<bar>x\<bar>\<bar>"
  proof -
    have "\<bar>real_of_int (significand \<bar>x\<bar>) - \<bar>x\<bar> / pow2 e\<bar> * pow2 e
        = \<bar>(real_of_int (significand \<bar>x\<bar>) - \<bar>x\<bar> / pow2 e) * pow2 e\<bar>"
      using p by (simp add: abs_mult)
    also have "(real_of_int (significand \<bar>x\<bar>) - \<bar>x\<bar> / pow2 e) * pow2 e
        = real_of_int (significand \<bar>x\<bar>) * pow2 e - \<bar>x\<bar>"
      using p by (simp add: field_simps)
    finally show ?thesis .
  qed
  ultimately have n: "\<bar>real_of_int (significand \<bar>x\<bar>) * pow2 e - \<bar>x\<bar>\<bar> \<le> pow2 e / 2" by simp
  define s where "s = real_of_int (significand \<bar>x\<bar>) * pow2 e"
  have n': "\<bar>s - \<bar>x\<bar>\<bar> \<le> pow2 e / 2" using n by (simp add: s_def)
  show ?thesis
  proof (cases "x = 0")
    case True
    then show ?thesis
      using a pow2_pos [of "exponent_of 0"] by (simp add: to_double_def less_imp_le)
  next
    case False
    then have "r = (if 0 < x then s else - s)"
      using a by (auto simp: to_double_def Let_def e_def s_def split: if_splits)
    then have "\<bar>r - x\<bar> = \<bar>s - \<bar>x\<bar>\<bar>" by (cases "0 < x") simp_all
    then show ?thesis using n' by (simp add: e_def)
  qed
qed

lemma significand_nonneg: "0 \<le> a \<Longrightarrow> 0 \<le> significand a"
proof -
  assume "0 \<le> a"
  then have "0 \<le> a / pow2 (exponent_of a)" using pow2_pos [of "exponent_of a"] by simp
  then show ?thesis unfolding significand_def by (rule round_even_nonneg)
qed

lemma exponent_small: "a < 2 ^ 53 \<Longrightarrow> exponent_of a \<le> 0"
  using ilog2_small [of a] by (simp add: exponent_of_def)

text \<open>A positive real that is at most a natural number below \<open>2 ^ 53\<close> rounds to a
  finite double that is at most that number.\<close>

lemma to_double_bounded:
  assumes "0 < x" and "x \<le> real n" and "n < 2 ^ 53"
  shows "\<exists>r. to_double x = Finite r \<and> 0 \<le> r \<and> r \<le> real n"
proof -
  define e where "e = exponent_of x"
  have "real n < 2 ^ 53"
    using assms(3) of_nat_less_iff [of n "2 ^ 53", where 'a = real] by simp
  then have "x < 2 ^ 53" using assms(2) by linarith
  then have e: "e \<le> 0" unfolding e_def by (rule exponent_small)
  define j where "j = nat (- e)"
  have p: "pow2 e = 1 / 2 ^ j"
    using e by (cases "e = 0") (simp_all add: pow2_def j_def)
  have "x / pow2 e \<le> real n * 2 ^ j" using assms(2) by (simp add: p)
  also have "\<dots> = real_of_int (int n * 2 ^ j)" by simp
  finally have "significand x \<le> int n * 2 ^ j"
    unfolding significand_def e_def [symmetric] by (rule round_even_le)
  then have "real_of_int (significand x) \<le> real n * 2 ^ j"
    using of_int_le_iff [of "significand x" "int n * 2 ^ j", where 'a = real] by simp
  then have le: "real_of_int (significand x) * pow2 e \<le> real n"
    by (simp add: p field_simps)
  have "0 \<le> real_of_int (significand x)" using assms(1) significand_nonneg [of x] by simp
  then have ge: "0 \<le> real_of_int (significand x) * pow2 e"
    using pow2_pos [of e] by (simp add: less_imp_le)
  have "\<not> overflows x" using e by (simp add: overflows_def e_def)
  then have "to_double x = Finite (real_of_int (significand x) * pow2 e)"
    using assms(1) by (simp add: to_double_def Let_def e_def)
  with le ge show ?thesis by blast
qed

lemma to_double_nonpos:
  "x \<le> 0 \<Longrightarrow> to_double x = NegInf \<or> (\<exists>r. to_double x = Finite r \<and> r \<le> 0)"
proof -
  assume x: "x \<le> 0"
  have "0 \<le> real_of_int (significand \<bar>x\<bar>)" using significand_nonneg [of "\<bar>x\<bar>"] by simp
  then have "0 \<le> real_of_int (significand \<bar>x\<bar>) * pow2 (exponent_of \<bar>x\<bar>)"
    using pow2_pos [of "exponent_of \<bar>x\<bar>"] by (simp add: less_imp_le)
  then show ?thesis using x
    by (cases "overflows \<bar>x\<bar>") (simp_all add: to_double_def Let_def)
qed

section \<open>Properties of the sampler\<close>

lemma count_finite:
  "slice0 xs (Math_max (Finite 1) (Math_floor (Finite x)))
     = take (nat (max 1 \<lfloor>x\<rfloor>)) xs"
proof -
  have "Math_max (Finite 1) (Math_floor (Finite x)) = Finite (of_int (max 1 \<lfloor>x\<rfloor>))"
    by (simp add: Math_floor_def max_def)
  moreover have "slice0 xs (Finite (of_int k)) = take (nat k) xs" if "1 \<le> k" for k
    using that by (simp add: slice0_def Let_def min_def)
  ultimately show ?thesis by simp
qed

lemma one_tenth: "selectionFraction (Some (Finite 10)) = Finite (3602879701896397 / 36028797018963968)"
  by code_simp

lemma ten_tenths: "length_times 10 (Finite (3602879701896397 / 36028797018963968)) = Finite 1"
  by code_simp

text \<open>
  Claim C1, as the code has it. Let \<open>N\<close> be the number of candidates and \<open>N * p\<close> the
  product as JavaScript computes it, a double. For every list of candidates, every
  rearrangement of it and every number \<open>p\<close>, the sampler returns at most \<open>N\<close> candidates:
  \<open>min N (max 1 \<lfloor>N * p\<rfloor>)\<close> when the product is finite, all \<open>N\<close> when it is the positive
  infinity, \<open>min N 1\<close> when it is the negative infinity, and none when it is NaN. For a
  non-empty list (of fewer than \<open>2 ^ 32\<close> candidates) and a finite \<open>p \<le> 1\<close> nothing is cut
  off: the selection has \<open>max 1 \<lfloor>N * p\<rfloor>\<close> candidates, one when the product is the negative
  infinity. Ten candidates with a selection percentage of 10 give exactly one.
\<close>

theorem randomSelectTexts_length:
  assumes "shuffle_of texts shuffled"
  shows "length (randomSelectTexts texts p shuffled) \<le> length texts
     \<and> (\<forall>x. length_times (length texts) p = Finite x \<longrightarrow>
          length (randomSelectTexts texts p shuffled) = min (length texts) (nat (max 1 \<lfloor>x\<rfloor>)))
     \<and> (length_times (length texts) p = PosInf \<longrightarrow>
          length (randomSelectTexts texts p shuffled) = length texts)
     \<and> (length_times (length texts) p = NegInf \<longrightarrow>
          length (randomSelectTexts texts p shuffled) = min (length texts) 1)
     \<and> (length_times (length texts) p = NaN \<longrightarrow>
          length (randomSelectTexts texts p shuffled) = 0)
     \<and> (\<forall>r. texts \<noteq> [] \<and> length texts < 2 ^ 32 \<and> p = Finite r \<and> r \<le> 1 \<longrightarrow>
          (length_times (length texts) p = NegInf
             \<and> length (randomSelectTexts texts p shuffled) = 1)
          \<or> (\<exists>x. length_times (length texts) p = Finite x
             \<and> int (length (randomSelectTexts texts p shuffled)) = max 1 \<lfloor>x\<rfloor>))
     \<and> (length texts = 10 \<longrightarrow>
          length (randomSelectTexts texts (selectionFraction (Some (Finite 10))) shuffled) = 1)"
proof -
  let ?n = "length texts"
  have len: "length shuffled = ?n"
    using assms by (metis shuffle_of_def size_mset)
  have fin: "length (randomSelectTexts texts q shuffled) = min ?n (nat (max 1 \<lfloor>x\<rfloor>))"
    if "length_times ?n q = Finite x" for q x
    using that by (simp add: randomSelectTexts_def Let_def count_finite len min.commute)
  have pinf: "length (randomSelectTexts texts p shuffled) = ?n"
    if "length_times ?n p = PosInf"
    using that by (simp add: randomSelectTexts_def Let_def Math_floor_def slice0_def len)
  have ninf: "length (randomSelectTexts texts p shuffled) = min ?n 1"
    if "length_times ?n p = NegInf"
    using that count_finite [of shuffled 1]
    by (simp add: randomSelectTexts_def Let_def Math_floor_def len min.commute)
  have nan: "length (randomSelectTexts texts p shuffled) = 0"
    if "length_times ?n p = NaN"
    using that by (simp add: randomSelectTexts_def Let_def Math_floor_def slice0_def)
  have bound: "length (randomSelectTexts texts p shuffled) \<le> ?n"
    using fin [of p] pinf ninf nan by (cases "length_times ?n p") simp_all
  have small: "(length_times ?n p = NegInf \<and> length (randomSelectTexts texts p shuffled) = 1)
      \<or> (\<exists>x. length_times ?n p = Finite x
      \<and> int (length (randomSelectTexts texts p shuffled)) = max 1 \<lfloor>x\<rfloor>)"
    if ne: "texts \<noteq> []" and n32: "?n < 2 ^ 32" and p: "p = Finite r" and r1: "r \<le> 1" for r
  proof -
    have n1: "1 \<le> int ?n" using ne by (cases texts) simp_all
    have n53: "?n < 2 ^ 53"
    proof -
      have "(2::nat) ^ 32 \<le> 2 ^ 53" by (rule power_increasing) simp_all
      with n32 show ?thesis by linarith
    qed
    have prod: "real ?n * r \<le> real ?n" using r1 by (simp add: mult_left_le)
    have "to_double (real ?n * r) = NegInf
        \<or> (\<exists>x. to_double (real ?n * r) = Finite x \<and> x \<le> real ?n)"
    proof (cases "0 < real ?n * r")
      case True
      from to_double_bounded [OF True prod n53] show ?thesis by blast
    next
      case False
      then have "real ?n * r \<le> 0" by simp
      from to_double_nonpos [OF this] show ?thesis
        by (metis of_nat_0_le_iff order_trans)
    qed
    then consider "length_times ?n p = NegInf"
      | x where "length_times ?n p = Finite x" "x \<le> real ?n"
      by (auto simp: length_times_def p)
    then show ?thesis
    proof cases
      case 1
      then show ?thesis using ninf n1 by simp
    next
      case (2 x)
      have "\<lfloor>x\<rfloor> \<le> int ?n" using 2(2) by (simp add: floor_le_iff)
      then have "max 1 \<lfloor>x\<rfloor> \<le> int ?n" using n1 by simp
      moreover have "1 \<le> max 1 \<lfloor>x\<rfloor>" by simp
      ultimately have "int (min ?n (nat (max 1 \<lfloor>x\<rfloor>))) = max 1 \<lfloor>x\<rfloor>" by linarith
      then show ?thesis using 2(1) fin [OF 2(1)] by simp
    qed
  qed
  have ten: "length (randomSelectTexts texts (selectionFraction (Some (Finite 10))) shuffled) = 1"
    if "?n = 10"
    using that fin [of "selectionFraction (Some (Finite 10))" 1] ten_tenths
    by (simp add: one_tenth)
  from bound fin [of p] pinf ninf nan small ten show ?thesis by blast
qed

text \<open>The products of the examples: 100 candidates at a selection percentage of 29, where
  the product is just below 29, 10 candidates at 30, and 3 candidates at the fraction
  three quarters.\<close>

lemma hundred_at_29:
  "length_times (length (replicate 100 (0::nat))) (selectionFraction (Some (Finite 29)))
     = Finite (8162774324609023 / 281474976710656)"
  by code_simp

lemma ten_at_30:
  "length_times (length (replicate 10 (0::nat))) (selectionFraction (Some (Finite 30))) = Finite 3"
  by code_simp

lemma three_quarters: "length_times (length [1::nat, 2, 3]) (Finite (3 / 4)) = Finite (9 / 4)"
  by code_simp

theorem randomSelectTexts_length_witness:
  "shuffle_of [1::nat, 2, 3] [3, 1, 2]
   \<and> length_times (length [1::nat, 2, 3]) (Finite (3 / 4)) = Finite (9 / 4)
   \<and> randomSelectTexts [1::nat, 2, 3] (Finite (3 / 4)) [3, 1, 2] = [3, 1]
   \<and> length (randomSelectTexts [1::nat, 2, 3] (Finite (3 / 4)) [3, 1, 2])
        = min (length [1::nat, 2, 3]) (nat (max 1 \<lfloor>9 / 4 :: real\<rfloor>))
   \<and> shuffle_of (replicate 10 (0::nat)) (replicate 10 0)
   \<and> length (randomSelectTexts (replicate 10 (0::nat))
         (selectionFraction (Some (Finite 10))) (replicate 10 0)) = 1
   \<and> length (randomSelectTexts (replicate 10 (0::nat))
         (selectionFraction (Some (Finite 30))) (replicate 10 0)) = 3
   \<and> shuffle_of (replicate 100 (0::nat)) (replicate 100 0)
   \<and> length_times (length (replicate 100 (0::nat))) (selectionFraction (Some (Finite 29)))
       = Finite (8162774324609023 / 281474976710656)
   \<and> length (randomSelectTexts (replicate 100 (0::nat))
         (selectionFraction (Some (Finite 29))) (replicate 100 0)) = 28
   \<and> length_times (length [1::nat, 2, 3]) PosInf = PosInf
   \<and> length (randomSelectTexts [1::nat, 2, 3] PosInf [3, 1, 2]) = 3
   \<and> length_times (length [1::nat, 2, 3]) NegInf = NegInf
   \<and> length (randomSelectTexts [1::nat, 2, 3] NegInf [3, 1, 2]) = 1
   \<and> length_times (length [1::nat, 2, 3]) NaN = NaN
   \<and> length (randomSelectTexts [1::nat, 2, 3] NaN [3, 1, 2]) = 0
   \<and> int (length (randomSelectTexts [1::nat, 2, 3] (Finite (3 / 4)) [3, 1, 2]))
       = max 1 \<lfloor>9 / 4 :: real\<rfloor>"
proof -
  have finite: "shuffle_of [1::nat, 2, 3] [3, 1, 2]
   \<and> length_times (length [1::nat, 2, 3]) (Finite (3 / 4)) = Finite (9 / 4)
   \<and> randomSelectTexts [1::nat, 2, 3] (Finite (3 / 4)) [3, 1, 2] = [3, 1]
   \<and> length (randomSelectTexts [1::nat, 2, 3] (Finite (3 / 4)) [3, 1, 2])
        = min (length [1::nat, 2, 3]) (nat (max 1 \<lfloor>9 / 4 :: real\<rfloor>))
   \<and> shuffle_of (replicate 10 (0::nat)) (replicate 10 0)
   \<and> length (randomSelectTexts (replicate 10 (0::nat))
         (selectionFraction (Some (Finite 10))) (replicate 10 0)) = 1
   \<and> length (randomSelectTexts (replicate 10 (0::nat))
         (selectionFraction (Some (Finite 30))) (replicate 10 0)) = 3
   \<and> shuffle_of (replicate 100 (0::nat)) (replicate 100 0)
   \<and> length_times (length (replicate 100 (0::nat))) (selectionFraction (Some (Finite 29)))
       = Finite (8162774324609023 / 281474976710656)
   \<and> length (randomSelectTexts (replicate 100 (0::nat))
         (selectionFraction (Some (Finite 29))) (replicate 100 0)) = 28"
  proof -
    have sh: "shuffle_of [1::nat, 2, 3] [3, 1, 2]" by (simp add: shuffle_of_def)
    have sh10: "shuffle_of (replicate 10 (0::nat)) (replicate 10 0)" by (simp add: shuffle_of_def)
    have sh100: "shuffle_of (replicate 100 (0::nat)) (replicate 100 0)"
      by (simp add: shuffle_of_def)
    have r: "randomSelectTexts [1::nat, 2, 3] (Finite (3 / 4)) [3, 1, 2] = [3, 1]"
      by code_simp
    have a: "length (randomSelectTexts [1::nat, 2, 3] (Finite (3 / 4)) [3, 1, 2])
          = min (length [1::nat, 2, 3]) (nat (max 1 \<lfloor>9 / 4 :: real\<rfloor>))"
      using randomSelectTexts_length [OF sh, of "Finite (3 / 4)"] three_quarters by blast
    have b: "length (randomSelectTexts (replicate 10 (0::nat))
           (selectionFraction (Some (Finite 10))) (replicate 10 0)) = 1"
      using randomSelectTexts_length [OF sh10, of "Finite 0"] by simp
    have "length (randomSelectTexts (replicate 10 (0::nat))
           (selectionFraction (Some (Finite 30))) (replicate 10 0))
         = min (length (replicate 10 (0::nat))) (nat (max 1 \<lfloor>3 :: real\<rfloor>))"
      using randomSelectTexts_length [OF sh10, of "selectionFraction (Some (Finite 30))"] ten_at_30
      by blast
    then have c: "length (randomSelectTexts (replicate 10 (0::nat))
           (selectionFraction (Some (Finite 30))) (replicate 10 0)) = 3"
      by simp
    have "length (randomSelectTexts (replicate 100 (0::nat))
           (selectionFraction (Some (Finite 29))) (replicate 100 0))
         = min (length (replicate 100 (0::nat)))
             (nat (max 1 \<lfloor>8162774324609023 / 281474976710656 :: real\<rfloor>))"
      using randomSelectTexts_length [OF sh100, of "selectionFraction (Some (Finite 29))"]
        hundred_at_29
      by blast
    then have d: "length (randomSelectTexts (replicate 100 (0::nat))
           (selectionFraction (Some (Finite 29))) (replicate 100 0)) = 28"
      by simp
    from sh sh10 sh100 three_quarters r a b c hundred_at_29 d show ?thesis by blast
  qed
  have others: "length_times (length [1::nat, 2, 3]) PosInf = PosInf
   \<and> length (randomSelectTexts [1::nat, 2, 3] PosInf [3, 1, 2]) = 3
   \<and> length_times (length [1::nat, 2, 3]) NegInf = NegInf
   \<and> length (randomSelectTexts [1::nat, 2, 3] NegInf [3, 1, 2]) = 1
   \<and> length_times (length [1::nat, 2, 3]) NaN = NaN
   \<and> length (randomSelectTexts [1::nat, 2, 3] NaN [3, 1, 2]) = 0
   \<and> int (length (randomSelectTexts [1::nat, 2, 3] (Finite (3 / 4)) [3, 1, 2]))
       = max 1 \<lfloor>9 / 4 :: real\<rfloor>"
  proof -
    have sh: "shuffle_of [1::nat, 2, 3] [3, 1, 2]" by (simp add: shuffle_of_def)
    have p: "length_times (length [1::nat, 2, 3]) PosInf = PosInf"
      "length_times (length [1::nat, 2, 3]) NegInf = NegInf"
      "length_times (length [1::nat, 2, 3]) NaN = NaN"
      by (simp_all add: length_times_def)
    have e1: "length (randomSelectTexts [1::nat, 2, 3] PosInf [3, 1, 2]) = length [1::nat, 2, 3]"
      using randomSelectTexts_length [OF sh, of PosInf] p(1) by blast
    have e2: "length (randomSelectTexts [1::nat, 2, 3] NegInf [3, 1, 2]) = min (length [1::nat, 2, 3]) 1"
      using randomSelectTexts_length [OF sh, of NegInf] p(2) by blast
    have e3: "length (randomSelectTexts [1::nat, 2, 3] NaN [3, 1, 2]) = 0"
      using randomSelectTexts_length [OF sh, of NaN] p(3) by blast
    have h: "[1::nat, 2, 3] \<noteq> [] \<and> length [1::nat, 2, 3] < 2 ^ 32
        \<and> Finite (3 / 4) = Finite (3 / 4) \<and> (3 / 4 :: real) \<le> 1"
      by simp
    have "(length_times (length [1::nat, 2, 3]) (Finite (3 / 4)) = NegInf
         \<and> length (randomSelectTexts [1::nat, 2, 3] (Finite (3 / 4)) [3, 1, 2]) = 1)
       \<or> (\<exists>x. length_times (length [1::nat, 2, 3]) (Finite (3 / 4)) = Finite x
         \<and> int (length (randomSelectTexts [1::nat, 2, 3] (Finite (3 / 4)) [3, 1, 2])) = max 1 \<lfloor>x\<rfloor>)"
      using randomSelectTexts_length [OF sh, of "Finite (3 / 4)"] h by blast
    then obtain x where x: "length_times (length [1::nat, 2, 3]) (Finite (3 / 4)) = Finite x"
      "int (length (randomSelectTexts [1::nat, 2, 3] (Finite (3 / 4)) [3, 1, 2])) = max 1 \<lfloor>x\<rfloor>"
      unfolding three_quarters by blast
    from x(1) have "x = 9 / 4" unfolding three_quarters by simp
    with x(2) have e4: "int (length (randomSelectTexts [1::nat, 2, 3] (Finite (3 / 4)) [3, 1, 2]))
         = max 1 \<lfloor>9 / 4 :: real\<rfloor>"
      by (simp only:)
    from p e1 e2 e3 e4 show ?thesis by (simp only: list.size) simp
  qed
  from finite others show ?thesis by blast
qed

text \<open>
  The claim as it is written, for every fraction, fails above 1: of one candidate and
  \<open>p = 2\<close> the sampler returns one candidate, not \<open>max 1 \<lfloor>1 * 2\<rfloor> = 2\<close>.
\<close>

theorem randomSelectTexts_length_counterexample:
  "shuffle_of [7::nat] [7]
   \<and> length_times (length [7::nat]) (Finite 2) = Finite 2
   \<and> int (length (randomSelectTexts [7::nat] (Finite 2) [7])) \<noteq> max 1 \<lfloor>2 :: real\<rfloor>"
proof -
  have t: "length_times (length [7::nat]) (Finite 2) = Finite 2" by code_simp
  have "randomSelectTexts [7::nat] (Finite 2) [7] = [7]" by code_simp
  then show ?thesis using t by (simp add: shuffle_of_def)
qed

section \<open>Properties of the annotator\<close>

lemma startsWith_iff: "startsWith s w \<longleftrightarrow> (\<exists>b. s = w @ b)"
proof
  assume "startsWith s w"
  then have "s = w @ drop (length w) s"
    by (metis append_take_drop_id startsWith_def)
  then show "\<exists>b. s = w @ b" ..
next
  assume "\<exists>b. s = w @ b"
  then show "startsWith s w" by (auto simp: startsWith_def)
qed

lemma js_includes_iff: "js_includes s w \<longleftrightarrow> (\<exists>a b. s = a @ w @ b)"
proof (induction s)
  case Nil
  show ?case by auto
next
  case (Cons c cs)
  show ?case
  proof
    assume "js_includes (c # cs) w"
    then consider "startsWith (c # cs) w" | "js_includes cs w" by auto
    then show "\<exists>a b. c # cs = a @ w @ b"
    proof cases
      case 1
      then obtain b where "c # cs = w @ b" using startsWith_iff by blast
      then have "c # cs = [] @ w @ b" by simp
      then show ?thesis by blast
    next
      case 2
      then obtain a b where "cs = a @ w @ b" using Cons.IH by blast
      then have "c # cs = (c # a) @ w @ b" by simp
      then show ?thesis by blast
    qed
  next
    assume "\<exists>a b. c # cs = a @ w @ b"
    then obtain a b where ab: "c # cs = a @ w @ b" by blast
    show "js_includes (c # cs) w"
    proof (cases a)
      case Nil
      then have "startsWith (c # cs) w" using ab startsWith_iff by auto
      then show ?thesis by simp
    next
      case (Cons x a')
      then have "cs = a' @ w @ b" using ab by simp
      then have "js_includes cs w" using Cons.IH by blast
      then show ?thesis by simp
    qed
  qed
qed

text \<open>
  Claim C3. When the target word is not a substring of the candidate's text, the
  annotator returns without an error and leaves the state as it was: the document
  (the parent's \<open>innerHTML\<close> and the text node's content with it), the scheduled hover
  handlers and the trace. This holds for every platform.
\<close>

theorem annotateWordInText_word_absent:
  "\<not> (\<exists>a b. text' textData = a @ targetWord @ b) \<Longrightarrow>
     annotateWordInText P fresh textData targetWord translation st = Inr st"
  by (simp add: annotateWordInText_def js_includes_iff)

theorem annotateWordInText_word_absent_witness:
  "js_includes (text' example_candidate) (asc ''2.5'') = False
   \<and> annotateWordInText (simple_platform []) (asc ''1'', asc ''a'') example_candidate
        (asc ''2.5'') (asc ''x'') example_state = Inr example_state"
proof -
  have n: "js_includes (text' example_candidate) (asc ''2.5'') = False"
    by (simp add: example_candidate_def asc_def startsWith_def)
  then have "\<not> (\<exists>a b. text' example_candidate = a @ asc ''2.5'' @ b)"
    by (simp add: js_includes_iff)
  from annotateWordInText_word_absent [OF this] n show ?thesis by simp
qed

section \<open>Properties of the configuration merge\<close>

lemma mergeConfig_absent:
  "k \<notin> dom cfg \<Longrightarrow> k \<noteq> ''lastUpdated'' \<Longrightarrow> mergeConfig defaults cfg now k = defaults k"
  by (auto simp: mergeConfig_def map_add_def split: option.splits)

lemma mergeConfig_present:
  "k \<in> dom cfg \<Longrightarrow> k \<noteq> ''lastUpdated'' \<Longrightarrow> mergeConfig defaults cfg now k = cfg k"
  by (auto simp: mergeConfig_def map_add_def split: option.splits)

lemma mergeConfig_lastUpdated:
  "mergeConfig defaults cfg now ''lastUpdated''
     = Some (case cfg ''lastUpdated'' of Some v \<Rightarrow> if truthy v then v else JNum now | None \<Rightarrow> JNum now)"
  by (simp add: mergeConfig_def js_or_def get_field_def split: option.splits)

lemma mergeConfig_dom: "dom defaults \<subseteq> dom (mergeConfig defaults cfg now)"
  by (auto simp: mergeConfig_def)

lemma getStoredConfig_in_absent:
  "k \<notin> dom (stored_object got) \<Longrightarrow> k \<noteq> ''lastUpdated'' \<Longrightarrow>
     getStoredConfig_in defaults got now k = defaults k"
  by (auto simp: getStoredConfig_in_def stored_object_def mergeConfig_absent Let_def
      split: sum.splits option.splits)

lemma getStoredConfig_in_dom:
  "dom defaults \<subseteq> dom (getStoredConfig_in defaults got now)"
  using mergeConfig_dom
  by (auto simp: getStoredConfig_in_def Let_def split: sum.splits option.splits)

lemma loadTranslatorConfig_as_in:
  "loadTranslatorConfig True got now = getStoredConfig_in DEFAULT_CONFIG_content got now"
  by (simp add: loadTranslatorConfig_def getStoredConfig_in_def)

lemma loadTranslatorConfig_absent:
  "k \<notin> dom (stored_object got) \<Longrightarrow> k \<noteq> ''lastUpdated'' \<Longrightarrow>
     loadTranslatorConfig hs got now k = DEFAULT_CONFIG_content k"
  by (cases hs) (simp_all add: loadTranslatorConfig_as_in getStoredConfig_in_absent,
      simp add: loadTranslatorConfig_def)

lemma loadTranslatorConfig_dom:
  "dom DEFAULT_CONFIG_content \<subseteq> dom (loadTranslatorConfig hs got now)"
proof (cases hs)
  case True
  then show ?thesis by (simp add: loadTranslatorConfig_as_in getStoredConfig_in_dom)
next
  case False
  then show ?thesis by (auto simp: loadTranslatorConfig_def)
qed

text \<open>
  Claim C4. Whatever the read of the storage yields (an object, the empty object,
  nothing, a rejection), every key that is absent from the stored object, \<open>lastUpdated\<close>
  apart, has in the loaded configuration the value the script's table of defaults gives
  it; so every key of the table is populated. This holds for \<open>getStoredConfig\<close> of both
  settings scripts and for \<open>loadTranslatorConfig\<close> of the content script.
\<close>

theorem config_merge_defaults:
  "(\<forall>k. k \<notin> dom (stored_object got) \<and> k \<noteq> ''lastUpdated'' \<longrightarrow>
        getStoredConfig got now k = DEFAULT_CONFIG_popup k
      \<and> getStoredConfig_settings got now k = DEFAULT_CONFIG_settings k
      \<and> loadTranslatorConfig hs got now k = DEFAULT_CONFIG_content k)
   \<and> dom DEFAULT_CONFIG_popup \<subseteq> dom (getStoredConfig got now)
   \<and> dom DEFAULT_CONFIG_settings \<subseteq> dom (getStoredConfig_settings got now)
   \<and> dom DEFAULT_CONFIG_content \<subseteq> dom (loadTranslatorConfig hs got now)
   \<and> dom DEFAULT_CONFIG_content
       = {''serverUrl'', ''apiUrl'', ''apiKey'', ''modelName'', ''systemPrompt'',
          ''userPromptTemplate'', ''selectionPercentage''}
   \<and> dom DEFAULT_CONFIG_popup
       = {''serverUrl'', ''apiUrl'', ''apiKey'', ''modelName'', ''systemPrompt'',
          ''userPromptTemplate''}"
proof -
  have a: "getStoredConfig got now k = DEFAULT_CONFIG_popup k
      \<and> getStoredConfig_settings got now k = DEFAULT_CONFIG_settings k
      \<and> loadTranslatorConfig hs got now k = DEFAULT_CONFIG_content k"
    if "k \<notin> dom (stored_object got)" "k \<noteq> ''lastUpdated''" for k
    using that
    by (simp add: getStoredConfig_def getStoredConfig_settings_def getStoredConfig_in_absent
        loadTranslatorConfig_absent)
  have b: "dom DEFAULT_CONFIG_popup \<subseteq> dom (getStoredConfig got now)"
    "dom DEFAULT_CONFIG_settings \<subseteq> dom (getStoredConfig_settings got now)"
    by (simp_all add: getStoredConfig_def getStoredConfig_settings_def getStoredConfig_in_dom)
  have c: "dom DEFAULT_CONFIG_content
       = {''serverUrl'', ''apiUrl'', ''apiKey'', ''modelName'', ''systemPrompt'',
          ''userPromptTemplate'', ''selectionPercentage''}"
    by (auto simp: DEFAULT_CONFIG_content_def)
  have d: "dom DEFAULT_CONFIG_popup
       = {''serverUrl'', ''apiUrl'', ''apiKey'', ''modelName'', ''systemPrompt'',
          ''userPromptTemplate''}"
    by (auto simp: DEFAULT_CONFIG_popup_def)
  from a b c d loadTranslatorConfig_dom [of hs got now] show ?thesis by blast
qed

theorem config_merge_defaults_witness:
  "''serverUrl'' \<notin> dom (stored_object (Inr (Some example_stored)))
   \<and> getStoredConfig (Inr (Some example_stored)) 99 ''serverUrl''
       = Some (JStr (asc ''http://127.0.0.1:5000''))
   \<and> ''selectionPercentage'' \<notin> dom (stored_object (Inr (Some example_stored)))
   \<and> loadTranslatorConfig True (Inr (Some example_stored)) 99 ''selectionPercentage''
       = Some (JNum 40)
   \<and> getStoredConfig_settings (Inr None) 99 ''apiUrl''
       = Some (JStr (asc ''http://localhost:8080/v1/chat/completions''))
   \<and> ''modelName'' \<in> dom (getStoredConfig (Inl StorageError) 99)"
proof -
  have s: "stored_object (Inr (Some example_stored)) = example_stored"
    "stored_object (Inr None) = Map.empty"
    by (simp_all add: stored_object_def)
  have n: "''serverUrl'' \<notin> dom example_stored" "''selectionPercentage'' \<notin> dom example_stored"
    by (simp_all add: example_stored_def)
  have d: "DEFAULT_CONFIG_popup ''serverUrl'' = Some (JStr (asc ''http://127.0.0.1:5000''))"
    "DEFAULT_CONFIG_content ''selectionPercentage'' = Some (JNum 40)"
    "DEFAULT_CONFIG_settings ''apiUrl'' = Some (JStr (asc ''http://localhost:8080/v1/chat/completions''))"
    by (simp_all add: DEFAULT_CONFIG_popup_def DEFAULT_CONFIG_content_def DEFAULT_CONFIG_settings_def)
  from config_merge_defaults [of "Inr (Some example_stored)" 99 True]
    config_merge_defaults [of "Inr None" 99 True]
    config_merge_defaults [of "Inl StorageError" 99 True]
  show ?thesis using s n d by auto
qed

text \<open>
  Claim C10. For a stored object, every key it has, \<open>lastUpdated\<close> apart, keeps its
  stored value in the loaded configuration, whatever that value is; \<open>lastUpdated\<close> keeps
  a truthy stored value and is the current time when the stored value is absent or
  falsy.
\<close>

theorem config_merge_prefers_stored:
  "(\<forall>k. k \<in> dom cfg \<and> k \<noteq> ''lastUpdated'' \<longrightarrow>
        getStoredConfig (Inr (Some cfg)) now k = cfg k
      \<and> getStoredConfig_settings (Inr (Some cfg)) now k = cfg k
      \<and> loadTranslatorConfig True (Inr (Some cfg)) now k = cfg k)
   \<and> (\<forall>v. cfg ''lastUpdated'' = Some v \<and> truthy v \<longrightarrow>
        getStoredConfig (Inr (Some cfg)) now ''lastUpdated'' = Some v
      \<and> getStoredConfig_settings (Inr (Some cfg)) now ''lastUpdated'' = Some v
      \<and> loadTranslatorConfig True (Inr (Some cfg)) now ''lastUpdated'' = Some v)
   \<and> (cfg ''lastUpdated'' = None \<or> (\<exists>v. cfg ''lastUpdated'' = Some v \<and> \<not> truthy v) \<longrightarrow>
        getStoredConfig (Inr (Some cfg)) now ''lastUpdated'' = Some (JNum now)
      \<and> getStoredConfig_settings (Inr (Some cfg)) now ''lastUpdated'' = Some (JNum now)
      \<and> loadTranslatorConfig True (Inr (Some cfg)) now ''lastUpdated'' = Some (JNum now))"
proof -
  have g: "getStoredConfig (Inr (Some cfg)) now = mergeConfig DEFAULT_CONFIG_popup cfg now"
    "getStoredConfig_settings (Inr (Some cfg)) now = mergeConfig DEFAULT_CONFIG_settings cfg now"
    "loadTranslatorConfig True (Inr (Some cfg)) now = mergeConfig DEFAULT_CONFIG_content cfg now"
    by (simp_all add: getStoredConfig_def getStoredConfig_settings_def getStoredConfig_in_def
        loadTranslatorConfig_def)
  have a: "mergeConfig d cfg now k = cfg k" if "k \<in> dom cfg" "k \<noteq> ''lastUpdated''" for d k
    using that by (rule mergeConfig_present)
  have b: "mergeConfig d cfg now ''lastUpdated'' = Some v"
    if "cfg ''lastUpdated'' = Some v" "truthy v" for d v
    using that by (simp add: mergeConfig_lastUpdated)
  have c: "mergeConfig d cfg now ''lastUpdated'' = Some (JNum now)"
    if "cfg ''lastUpdated'' = None \<or> (\<exists>v. cfg ''lastUpdated'' = Some v \<and> \<not> truthy v)" for d
    using that by (auto simp: mergeConfig_lastUpdated)
  show ?thesis unfolding g using a b c by blast
qed

theorem config_merge_prefers_stored_witness:
  "''apiUrl'' \<in> dom example_stored
   \<and> getStoredConfig_settings (Inr (Some example_stored)) 99 ''apiUrl'' = Some (JStr [])
   \<and> DEFAULT_CONFIG_settings ''apiUrl''
       = Some (JStr (asc ''http://localhost:8080/v1/chat/completions''))
   \<and> example_stored ''lastUpdated'' = Some (JNum 0) \<and> truthy (JNum 0) = False
   \<and> getStoredConfig (Inr (Some example_stored)) 99 ''lastUpdated'' = Some (JNum 99)
   \<and> truthy (JNum 5) = True
   \<and> loadTranslatorConfig True (Inr (Some (example_stored(''lastUpdated'' \<mapsto> JNum 5)))) 99 ''lastUpdated''
       = Some (JNum 5)"
proof -
  have e: "''apiUrl'' \<in> dom example_stored" "example_stored ''apiUrl'' = Some (JStr [])"
    "example_stored ''lastUpdated'' = Some (JNum 0)"
    by (simp_all add: example_stored_def)
  have d: "DEFAULT_CONFIG_settings ''apiUrl''
       = Some (JStr (asc ''http://localhost:8080/v1/chat/completions''))"
    by (simp add: DEFAULT_CONFIG_settings_def)
  from config_merge_prefers_stored [of example_stored 99]
    config_merge_prefers_stored [of "example_stored(''lastUpdated'' \<mapsto> JNum 5)" 99]
  show ?thesis using e d by auto
qed

section \<open>Properties of the URL validator and of saving the settings\<close>

text \<open>
  Claim C7. \<open>isValidUrl\<close> is true exactly for the strings that the platform parses to
  a URL whose protocol is \<open>http:\<close> or \<open>https:\<close>; it is false when the parser throws
  and when the protocol is any other.
\<close>

theorem isValidUrl_iff:
  "(isValidUrl URL s \<longleftrightarrow>
      (\<exists>u. URL s = Inr u \<and> (protocol u = asc ''http:'' \<or> protocol u = asc ''https:'')))
   \<and> ((\<exists>e. URL s = Inl e) \<longrightarrow> \<not> isValidUrl URL s)
   \<and> (\<forall>u. URL s = Inr u \<and> protocol u \<noteq> asc ''http:'' \<and> protocol u \<noteq> asc ''https:''
         \<longrightarrow> \<not> isValidUrl URL s)"
  by (auto simp: isValidUrl_def split: sum.splits)

theorem isValidUrl_iff_witness:
  "isValidUrl example_URL (asc ''http://127.0.0.1:5000'')
   \<and> isValidUrl example_URL (asc ''https://example.org/v1'')
   \<and> example_URL (asc ''ftp://example.org'') = Inr \<lparr>protocol = asc ''ftp:''\<rparr>
   \<and> isValidUrl example_URL (asc ''ftp://example.org'') = False
   \<and> example_URL (asc ''127.0.0.1:5000'') = Inl TypeError
   \<and> isValidUrl example_URL (asc ''127.0.0.1:5000'') = False"
proof -
  have p: "example_URL (asc ''http://127.0.0.1:5000'') = Inr \<lparr>protocol = asc ''http:''\<rparr>"
    "example_URL (asc ''https://example.org/v1'') = Inr \<lparr>protocol = asc ''https:''\<rparr>"
    "example_URL (asc ''ftp://example.org'') = Inr \<lparr>protocol = asc ''ftp:''\<rparr>"
    "example_URL (asc ''127.0.0.1:5000'') = Inl TypeError"
    by (simp_all add: example_URL_def asc_def)
  have q: "asc ''ftp:'' \<noteq> asc ''http:''" "asc ''ftp:'' \<noteq> asc ''https:''"
    by (simp_all add: asc_def)
  from isValidUrl_iff [of example_URL "asc ''http://127.0.0.1:5000''"]
    isValidUrl_iff [of example_URL "asc ''https://example.org/v1''"]
    isValidUrl_iff [of example_URL "asc ''ftp://example.org''"]
    isValidUrl_iff [of example_URL "asc ''127.0.0.1:5000''"]
  show ?thesis using p q by auto
qed

text \<open>
  Claim C9. When a validation check fails, \<open>saveSettings\<close> makes no call of
  \<open>chrome.storage.sync.set\<close>: the stored configuration, the list of calls and the
  count of notifications are unchanged, and the status line shows an error.
\<close>

theorem saveSettings_validation_error:
  "validation_fails URL f \<Longrightarrow>
     stored (saveSettings URL set_outcome now f st) = stored st
     \<and> set_calls (saveSettings URL set_outcome now f st) = set_calls st
     \<and> notifications (saveSettings URL set_outcome now f st) = notifications st
     \<and> (\<exists>m. status (saveSettings URL set_outcome now f st) = Some (m, ''error''))"
  unfolding validation_fails_def saveSettings_def Let_def showStatus_def
  by (auto split: if_splits)

theorem saveSettings_validation_error_witness:
  "isValidUrl example_URL (trim (serverUrlInput example_form))
   \<and> js_includes (trim (userPromptTemplateInput example_form)) (asc ''{context_sentence}'') = False
   \<and> stored (saveSettings example_URL (\<lambda>c. None) 99 example_form example_popup)
       = Some example_stored
   \<and> set_calls (saveSettings example_URL (\<lambda>c. None) 99 example_form example_popup) = []
   \<and> length (set_calls (saveSettings example_URL (\<lambda>c. None) 99
         (example_form\<lparr>userPromptTemplateInput := userPromptTemplate_default\<rparr>) example_popup))
       = 1"
proof -
  have t: "trim (serverUrlInput example_form) = asc ''http://127.0.0.1:5000''"
    "trim (userPromptTemplateInput example_form) = asc ''translate {target_word}''"
    by (simp_all add: example_form_def trim_def js_space_def asc_def)
  have v: "isValidUrl example_URL (asc ''http://127.0.0.1:5000'')"
    by (simp add: isValidUrl_def example_URL_def)
  have i: "js_includes (asc ''translate {target_word}'') (asc ''{context_sentence}'') = False"
    by (simp add: asc_def startsWith_def)
  have f: "validation_fails example_URL example_form"
  proof -
    have "asc ''translate {target_word}'' \<noteq> []" by (simp add: asc_def)
    then show ?thesis unfolding validation_fails_def t using i by blast
  qed
  have t': "trim userPromptTemplate_default = userPromptTemplate_default"
    by (simp add: userPromptTemplate_default_def trim_def js_space_def asc_def)
  have i': "js_includes userPromptTemplate_default (asc ''{target_word}'')"
    "js_includes userPromptTemplate_default (asc ''{context_sentence}'')"
    by (simp_all add: userPromptTemplate_default_def asc_def startsWith_def)
  have ne: "userPromptTemplate_default \<noteq> []" "asc ''http://127.0.0.1:5000'' \<noteq> []"
    by (simp_all add: userPromptTemplate_default_def asc_def)
  have a: "trim (apiUrlInput example_form) = []" "serverUrlInput example_form = asc '' http://127.0.0.1:5000 ''"
    by (simp_all add: example_form_def trim_def)
  have ok: "length (set_calls (saveSettings example_URL (\<lambda>c. None) 99
         (example_form\<lparr>userPromptTemplateInput := userPromptTemplate_default\<rparr>) example_popup))
       = 1"
    using t(1) v
    by (simp add: saveSettings_def Let_def t' i' ne a showStatus_def example_popup_def)
  from saveSettings_validation_error [OF f, of "\<lambda>c. None" 99 example_popup] t v i ok
  show ?thesis by (simp add: example_popup_def)
qed

section \<open>Properties of the translation client\<close>

lemma started_append: "started (xs @ ys) = started xs @ started ys"
  by (induction xs rule: started.induct) simp_all

lemma fetches_append: "fetches (xs @ ys) = fetches xs @ fetches ys"
  by (induction xs rule: fetches.induct) simp_all

lemma in_flight_append:
  "in_flight b (xs @ ys) = (case in_flight b xs of None \<Rightarrow> None | Some b' \<Rightarrow> in_flight b' ys)"
  by (induction b xs rule: in_flight.induct) simp_all

lemma annotate_as_text_keeps:
  "annotate_as_text P c w t st = Inr st' \<Longrightarrow>
     trace st' = trace st \<and> translatorConfig st' = translatorConfig st"
  by (auto simp: annotate_as_text_def Let_def split: sum.splits)

lemma annotateWordInText_keeps:
  "annotateWordInText P fr c w t st = Inr st' \<Longrightarrow>
     trace st' = trace st \<and> translatorConfig st' = translatorConfig st"
  by (auto simp: annotateWordInText_def Let_def
      split: if_splits option.splits sum.splits dest: annotate_as_text_keeps)

lemma callTranslateAPI_state:
  "callTranslateAPI P sentence st = (r, s) \<Longrightarrow>
     translatorConfig s = Some (config_in_effect P st)
     \<and> document s = document st \<and> timers s = timers st
     \<and> trace s = trace st @ call_events P (config_in_effect P st) sentence"
  by (auto simp: callTranslateAPI_def config_in_effect_def call_events_def Let_def
      split: if_splits option.splits fetch_outcome.splits sum.splits)

lemma callTranslateAPI_failed:
  assumes "failed_outcome (fetch P (fetch_count (trace st))
             (translate_request P (config_in_effect P st) sentence))
           \<or> preview_throws (get_field (config_in_effect P st) ''systemPrompt'')
           \<or> preview_throws (get_field (config_in_effect P st) ''userPromptTemplate'')"
  shows "\<exists>e. fst (callTranslateAPI P sentence st) = Inl e"
  using assms
  by (auto simp: callTranslateAPI_def config_in_effect_def failed_outcome_def Let_def
      split: if_splits option.splits fetch_outcome.splits sum.splits)

lemma translate_try_state:
  "translate_try P i c st = (r, s) \<Longrightarrow>
     translatorConfig s = Some (config_in_effect P st)
     \<and> (\<exists>es. trace s = trace st @ call_events P (config_in_effect P st) (text' c) @ es
           \<and> quiet es \<and> (es = [] \<or> es = [NoValidResult]))"
proof -
  assume a: "translate_try P i c st = (r, s)"
  obtain r1 s1 where c1: "callTranslateAPI P (text' c) st = (r1, s1)"
    by (cases "callTranslateAPI P (text' c) st")
  note k = callTranslateAPI_state [OF c1]
  show ?thesis
  proof (cases r1)
    case (Inl e)
    then have "s = s1" using a c1 by (simp add: translate_try_def)
    then show ?thesis using k by (simp add: quiet_def)
  next
    case (Inr res)
    show ?thesis
    proof (cases "truthy res \<and> truthy (get_prop res ''target_word'')
        \<and> truthy (get_prop res ''translation'')")
      case False
      then have "s = s1\<lparr>trace := trace s1 @ [NoValidResult]\<rparr>"
        using a c1 Inr by (auto simp: translate_try_def)
      then show ?thesis using k by (simp add: quiet_def)
    next
      case True
      show ?thesis
      proof (cases "annotateWordInText P (fresh_id P i) c
                       (ToString P (get_prop res ''target_word''))
                       (ToString P (get_prop res ''translation'')) s1")
        case (Inl e)
        then have "s = s1" using a c1 Inr True by (simp add: translate_try_def)
        then show ?thesis using k by (simp add: quiet_def)
      next
        case (Inr s2)
        then have "s = s2" using a c1 \<open>r1 = Inr res\<close> True by (simp add: translate_try_def)
        then show ?thesis using k annotateWordInText_keeps [OF Inr] by (simp add: quiet_def)
      qed
    qed
  qed
qed

lemma translate_round_state:
  "translatorConfig (translate_round P i c st) = Some (config_in_effect P st)
   \<and> (\<exists>es. trace (translate_round P i c st)
              = trace st @ [Translating (i + 1) (text' c)]
                @ call_events P (config_in_effect P st) (text' c) @ es
           \<and> quiet es)"
proof -
  let ?st0 = "st\<lparr>trace := trace st @ [Translating (i + 1) (text' c)]\<rparr>"
  obtain r s where t: "translate_try P i c ?st0 = (r, s)"
    by (cases "translate_try P i c ?st0")
  have cfg: "config_in_effect P ?st0 = config_in_effect P st"
    by (simp add: config_in_effect_def)
  from translate_try_state [OF t] cfg obtain es where
    s: "translatorConfig s = Some (config_in_effect P st)"
    "trace s = trace st @ [Translating (i + 1) (text' c)]
        @ call_events P (config_in_effect P st) (text' c) @ es" "quiet es"
    by auto
  show ?thesis
  proof (cases r)
    case None
    then have "translate_round P i c st = s\<lparr>trace := trace s @ [Delay500]\<rparr>"
      using t by (simp add: translate_round_def Let_def)
    moreover have "quiet (es @ [Delay500])"
      using s(3) by (simp add: quiet_def started_append fetches_append in_flight_append)
    ultimately show ?thesis using s by auto
  next
    case (Some e)
    then have "translate_round P i c st = s\<lparr>trace := trace s @ [Caught e, Delay500]\<rparr>"
      using t by (simp add: translate_round_def Let_def)
    moreover have "quiet (es @ [Caught e, Delay500])"
      using s(3) by (simp add: quiet_def started_append fetches_append in_flight_append)
    ultimately show ?thesis using s by auto
  qed
qed

lemma call_events_flight: "in_flight False (call_events P cfg s) = Some False"
  by (simp add: call_events_def)

lemma translate_loop_trace:
  "\<exists>evs. trace (translate_loop P i cs st) = trace st @ evs
     \<and> started evs = numbered i cs
     \<and> fetches evs = concat (map (\<lambda>c. fetches (call_events P (config_in_effect P st) (text' c))) cs)
     \<and> in_flight False evs = Some False"
proof (induction cs arbitrary: i st)
  case Nil
  show ?case by (simp add: numbered_def)
next
  case (Cons c cs)
  let ?s = "translate_round P i c st"
  let ?cfg = "config_in_effect P st"
  from translate_round_state [of P i c st] obtain es where
    r: "translatorConfig ?s = Some ?cfg"
    "trace ?s = trace st @ [Translating (i + 1) (text' c)] @ call_events P ?cfg (text' c) @ es"
    "quiet es" by blast
  have cfg: "config_in_effect P ?s = ?cfg" using r(1) by (simp add: config_in_effect_def)
  from Cons.IH [of "Suc i" ?s] cfg obtain evs where
    l: "trace (translate_loop P (Suc i) cs ?s) = trace ?s @ evs"
    "started evs = numbered (Suc i) cs"
    "fetches evs = concat (map (\<lambda>c. fetches (call_events P ?cfg (text' c))) cs)"
    "in_flight False evs = Some False" by auto
  let ?new = "[Translating (i + 1) (text' c)] @ call_events P ?cfg (text' c) @ es @ evs"
  have st_ce: "started (call_events P ?cfg (text' c)) = []"
    by (simp add: call_events_def)
  have 1: "trace (translate_loop P i (c # cs) st) = trace st @ ?new"
    using l(1) r(2) by simp
  have 2: "started ?new = numbered i (c # cs)"
    using r(3) l(2) st_ce by (simp add: started_append quiet_def numbered_def)
  have 3: "fetches ?new
      = concat (map (\<lambda>c. fetches (call_events P ?cfg (text' c))) (c # cs))"
    using r(3) l(3) by (simp add: fetches_append quiet_def)
  have 4: "in_flight False ?new = Some False"
    using r(3) l(4) call_events_flight [of P ?cfg "text' c"]
    by (simp add: in_flight_append quiet_def)
  from 1 2 3 4 show ?case by blast
qed

lemma translate_loop_append:
  "translate_loop P i (xs @ ys) st = translate_loop P (i + length xs) ys (translate_loop P i xs st)"
  by (induction xs arbitrary: i st) simp_all

lemma translate_round_failed:
  assumes "failed_outcome (fetch P (fetch_count (trace st))
             (translate_request P (config_in_effect P st) (text' c)))
           \<or> preview_throws (get_field (config_in_effect P st) ''systemPrompt'')
           \<or> preview_throws (get_field (config_in_effect P st) ''userPromptTemplate'')"
  shows "document (translate_round P i c st) = document st
     \<and> timers (translate_round P i c st) = timers st
     \<and> (\<exists>e. trace (translate_round P i c st)
              = trace st @ [Translating (i + 1) (text' c)]
                @ call_events P (config_in_effect P st) (text' c) @ [Caught e, Delay500])"
proof -
  let ?st0 = "st\<lparr>trace := trace st @ [Translating (i + 1) (text' c)]\<rparr>"
  have cfg: "config_in_effect P ?st0 = config_in_effect P st"
    by (simp add: config_in_effect_def)
  have fc: "fetch_count (trace ?st0) = fetch_count (trace st)"
    by (simp add: fetch_count_def)
  obtain r s where cs: "callTranslateAPI P (text' c) ?st0 = (r, s)"
    by (cases "callTranslateAPI P (text' c) ?st0")
  from callTranslateAPI_failed [of P ?st0 "text' c"] assms cfg fc cs
  obtain e where e: "r = Inl e" by auto
  from callTranslateAPI_state [OF cs] cfg have
    s: "document s = document st" "timers s = timers st"
    "trace s = trace st @ [Translating (i + 1) (text' c)]
       @ call_events P (config_in_effect P st) (text' c)" by simp_all
  have "translate_round P i c st = s\<lparr>trace := trace s @ [Caught e, Delay500]\<rparr>"
    using cs e by (simp add: translate_round_def translate_try_def Let_def)
  then show ?thesis using s by simp
qed



lemma first_round_fetch:
  "fetch (simple_platform example_answers) (fetch_count (trace loaded_state))
      (translate_request (simple_platform example_answers)
         (config_in_effect (simple_platform example_answers) loaded_state)
         (text' example_candidate))
   = Response False 500 (Inl SyntaxError)"
  by (simp add: simple_platform_def example_answers_def fetch_count_def loaded_state_def
      example_state_def)

text \<open>
  Claim C6. \<open>translateSelectedTexts\<close> never throws: it returns a final state, in which
  every selected candidate has had its round, in order, with at most one request each
  (no retry). A round whose translation call fails (the request is rejected, the
  response is not 2xx, or the body is not JSON) leaves the document and the scheduled
  handlers as they were, logs the error in its \<open>catch\<close> and ends with the pause; and
  the candidates after a candidate \<open>c\<close> are processed from the state \<open>c\<close>'s round
  leaves, whatever happened in it.
\<close>

theorem translateSelectedTexts_skips_failures:
  "(\<exists>st' evs. translateSelectedTexts P sel st = Inr st'
        \<and> trace st' = trace st @ evs
        \<and> started evs = numbered 0 sel
        \<and> length (fetches evs) \<le> length sel)
   \<and> (failed_outcome (fetch P (fetch_count (trace s))
           (translate_request P (config_in_effect P s) (text' c)))
       \<longrightarrow> document (translate_round P i c s) = document s
         \<and> timers (translate_round P i c s) = timers s
         \<and> (\<exists>e. trace (translate_round P i c s)
              = trace s @ [Translating (i + 1) (text' c)]
                @ call_events P (config_in_effect P s) (text' c) @ [Caught e, Delay500]))
   \<and> translateSelectedTexts P (xs @ c # ys) st
       = Inr (translate_loop P (Suc (length xs)) ys
               (translate_round P (length xs) c (translate_loop P 0 xs st)))"
proof -
  from translate_loop_trace [of P 0 sel st] obtain evs where
    e: "trace (translate_loop P 0 sel st) = trace st @ evs" "started evs = numbered 0 sel"
    "fetches evs = concat (map (\<lambda>c. fetches (call_events P (config_in_effect P st) (text' c))) sel)"
    by blast
  have "length (concat (map (\<lambda>c. fetches (call_events P cfg (text' c))) cs)) \<le> length cs"
    for cfg and cs :: "('b, 'c) candidate list"
  proof (induction cs)
    case Nil
    show ?case by simp
  next
    case (Cons a cs)
    have "length (fetches (call_events P cfg (text' a))) \<le> 1"
      by (simp add: call_events_def)
    with Cons show ?case by simp
  qed
  then have "length (fetches evs) \<le> length sel" using e(3) by simp
  then have 1: "\<exists>st' evs. translateSelectedTexts P sel st = Inr st'
        \<and> trace st' = trace st @ evs
        \<and> started evs = numbered 0 sel
        \<and> length (fetches evs) \<le> length sel"
    using e by (simp add: translateSelectedTexts_def)
  have 3: "translateSelectedTexts P (xs @ c # ys) st
       = Inr (translate_loop P (Suc (length xs)) ys
               (translate_round P (length xs) c (translate_loop P 0 xs st)))"
    by (simp add: translateSelectedTexts_def translate_loop_append)
  from 1 3 translate_round_failed [of P s c i] show ?thesis by blast
qed

theorem translateSelectedTexts_skips_failures_witness:
  "fetch (simple_platform example_answers) (fetch_count (trace loaded_state))
      (translate_request (simple_platform example_answers)
         (config_in_effect (simple_platform example_answers) loaded_state)
         (text' example_candidate))
     = Response False 500 (Inl SyntaxError)
   \<and> document (translate_round (simple_platform example_answers) 0 example_candidate loaded_state)
       = document loaded_state
   \<and> timers (translate_round (simple_platform example_answers) 0 example_candidate loaded_state)
       = []
   \<and> translateSelectedTexts (simple_platform example_answers)
         [example_candidate, second_candidate] loaded_state
       = Inr (translate_loop (simple_platform example_answers) 1 [second_candidate]
               (translate_round (simple_platform example_answers) 0 example_candidate loaded_state))
   \<and> (\<exists>st' evs. translateSelectedTexts (simple_platform example_answers)
          [example_candidate, second_candidate] loaded_state = Inr st'
        \<and> trace st' = evs
        \<and> started evs = [(1, asc ''1.5 '' @ [0x500D] @ asc '' 125''), (2, [0x4F60, 0x597D])])"
proof -
  have f: "failed_outcome (fetch (simple_platform example_answers) (fetch_count (trace loaded_state))
      (translate_request (simple_platform example_answers)
         (config_in_effect (simple_platform example_answers) loaded_state)
         (text' example_candidate)))"
    unfolding first_round_fetch by (simp add: failed_outcome_def)
  have t: "timers loaded_state = []" "trace loaded_state = []"
    by (simp_all add: loaded_state_def example_state_def)
  have n: "numbered 0 [example_candidate, second_candidate]
      = [(1, asc ''1.5 '' @ [0x500D] @ asc '' 125''), (2, [0x4F60, 0x597D])]"
    by (simp add: numbered_def example_candidate_def second_candidate_def)
  from translateSelectedTexts_skips_failures [of "simple_platform example_answers"
      "[example_candidate, second_candidate]" loaded_state loaded_state example_candidate 0
      "[]" "[second_candidate]"] f first_round_fetch
  show ?thesis unfolding t n by auto
qed



section \<open>The annotator and words with pattern characters\<close>

text \<open>In the modelled patterns, a word without syntax characters is replaced as a
  literal word is: the divergence below needs a pattern character.\<close>

lemma atoms_of_plain:
  "\<forall>c \<in> set w. \<not> syntax_char c \<Longrightarrow> atoms_of w = Some (map Lit w)"
  by (induction w) (auto simp: syntax_char_def)

lemma match_here_literal: "match_here (map Lit w) s = startsWith s w"
proof (induction w arbitrary: s)
  case Nil
  show ?case by (simp add: startsWith_def)
next
  case (Cons a w)
  show ?case
  proof (cases s)
    case Nil
    then show ?thesis by (simp add: startsWith_def)
  next
    case (Cons c cs)
    then show ?thesis using Cons.IH [of cs] by (auto simp: startsWith_def)
  qed
qed

lemma replace_matches_literal:
  "replace_matches (map Lit w) r k s = replace_occurrences w r k s"
  by (induction w r k s rule: replace_occurrences.induct) (simp_all add: match_here_literal)

lemma regexp_replace_plain_literal:
  "w \<noteq> [] \<Longrightarrow> \<forall>c \<in> set w. \<not> syntax_char c \<Longrightarrow> 36 \<notin> set r \<Longrightarrow>
     regexp_replace_plain w s r = Some (replace_literal s w r)"
  by (simp add: regexp_replace_plain_def compile_pattern_def atoms_of_plain
      replace_matches_literal replace_literal_def)

lemma replace_in_example:
  "36 \<notin> set R \<Longrightarrow>
     regexp_replace_plain (asc ''1.5'') (asc ''1.5 '' @ [0x500D] @ asc '' 125'') R
       = Some (R @ [32, 0x500D, 32] @ R)"
  by (simp add: regexp_replace_plain_def compile_pattern_def asc_def syntax_char_def
      line_terminator_def)

lemma literal_in_example:
  "replace_literal (asc ''1.5 '' @ [0x500D] @ asc '' 125'') (asc ''1.5'') R
     = R @ [32, 0x500D, 32] @ asc ''125''"
  by (simp add: replace_literal_def asc_def startsWith_def)

lemma example_markup_plain: "36 \<notin> set example_markup"
  by (simp add: example_markup_def hoverableWord_def hoverableWordId_def styledAnnotation_def asc_def)

text \<open>
  Claim C5 fails on the code for a word with a dot. The candidate's text and its
  parent's HTML are \<open>1.5 X 125\<close> (with a Chinese character for \<open>X\<close>) and the target
  word is \<open>1.5\<close>. The word occurs once, but as a pattern its dot matches any character,
  so the annotator replaces \<open>125\<close> as well: the parent's new HTML has the markup
  twice, where replacing the occurrences of the word itself gives it once and leaves
  \<open>125\<close>.
\<close>

theorem annotateWordInText_dot_matches_any:
  "js_includes (text' example_candidate) (asc ''1.5'')
   \<and> html_of (document example_state) 0 = Some (asc ''1.5 '' @ [0x500D] @ asc '' 125'')
   \<and> regexp_replace_plain (asc ''1.5'') (asc ''1.5 '' @ [0x500D] @ asc '' 125'') example_markup
       = Some (example_markup @ [32, 0x500D, 32] @ example_markup)
   \<and> annotateWordInText (simple_platform []) (asc ''1700000000000'', asc ''abcdefghi'')
        example_candidate (asc ''1.5'') (asc ''x'') example_state
       = Inr (example_state
            \<lparr>document := (document example_state)
               \<lparr>html_of := (html_of (document example_state))
                  (0 \<mapsto> example_markup @ [32, 0x500D, 32] @ example_markup)\<rparr>,
             timers := [hoverableWordId (asc ''1700000000000'', asc ''abcdefghi'')]\<rparr>)
   \<and> replace_literal (asc ''1.5 '' @ [0x500D] @ asc '' 125'') (asc ''1.5'') example_markup
       = example_markup @ [32, 0x500D, 32] @ asc ''125''
   \<and> example_markup @ [32, 0x500D, 32] @ example_markup
       \<noteq> example_markup @ [32, 0x500D, 32] @ asc ''125''"
proof -
  have i: "js_includes (text' example_candidate) (asc ''1.5'')"
    by (simp add: example_candidate_def asc_def startsWith_def)
  have h: "html_of (document example_state) 0 = Some (asc ''1.5 '' @ [0x500D] @ asc '' 125'')"
    by (simp add: example_state_def)
  note r = replace_in_example [OF example_markup_plain]
  have a: "annotateWordInText (simple_platform []) (asc ''1700000000000'', asc ''abcdefghi'')
        example_candidate (asc ''1.5'') (asc ''x'') example_state
       = Inr (example_state
            \<lparr>document := (document example_state)
               \<lparr>html_of := (html_of (document example_state))
                  (0 \<mapsto> example_markup @ [32, 0x500D, 32] @ example_markup)\<rparr>,
             timers := [hoverableWordId (asc ''1700000000000'', asc ''abcdefghi'')]\<rparr>)"
  proof -
    have p: "parent example_candidate = Some 0" by (simp add: example_candidate_def)
    have tm: "timers example_state = []" by (simp add: example_state_def)
    show ?thesis
      unfolding annotateWordInText_def Let_def
      using i h r p tm
      by (simp add: simple_platform_def example_markup_def [symmetric])
  qed
  have d: "example_markup @ [32, 0x500D, 32] @ example_markup
       \<noteq> example_markup @ [32, 0x500D, 32] @ asc ''125''"
  proof -
    have "length example_markup \<noteq> length (asc ''125'')"
      by (simp add: example_markup_def hoverableWord_def asc_def)
    then have "example_markup \<noteq> asc ''125''" by auto
    then show ?thesis by simp
  qed
  from i h r a literal_in_example [of example_markup] d show ?thesis by blast
qed

end
